theory Spec2Isabelle
  imports Main
begin

section \<open>Data model (src/types.ts)\<close>

text \<open>
  A JavaScript string is modelled as a \<^typ>\<open>string\<close>: one \<^typ>\<open>char\<close> per code unit,
  so the model covers the strings whose code units are below 256. A \<open>Buffer\<close> is a list of
  bytes. A nullable field \<open>T | null\<close> is a \<^typ>\<open>'a option\<close>.
\<close>

type_synonym Buffer = "char list"

record ShopwareMedia =
  media_id :: string
  url :: string
  fileName :: string
  mimeType :: string

record Translated =
  translated_name :: string
  translated_description :: "string option"

text \<open>
  \<open>translated\<close> is read with optional chaining (\<open>product.translated?.name\<close>), so the
  model lets it be absent.
\<close>

record ShopwareProduct =
  product_id :: string
  name :: string
  description :: "string option"
  productNumber :: string
  coverId :: "string option"
  cover :: "ShopwareMedia option"
  translated :: "Translated option"

datatype Status = uploaded | skipped | failed

record ProcessingResult =
  productId :: string
  productName :: string
  status :: Status
  error :: "string option"

section \<open>JavaScript values and strings\<close>

text \<open>
  What \<open>throw\<close> raises. The code only throws \<open>new Error(message)\<close>; the image service's
  client library may reject with anything, and \<open>main\<close> reads the message of a caught value
  as \<open>err instanceof Error ? err.message : String(err)\<close>.
\<close>

datatype Thrown = Error string | NonError string

fun message :: "Thrown \<Rightarrow> string" where
  "message (Error m) = m"
| "message (NonError s) = s"

text \<open>Truthiness of a \<open>string | null\<close>: \<open>null\<close> and the empty string are falsy.\<close>

fun truthy :: "string option \<Rightarrow> bool" where
  "truthy None = False"
| "truthy (Some s) = (s \<noteq> [])"

text \<open>\<open>a || b\<close> on nullable strings.\<close>

definition or_else :: "string option \<Rightarrow> string option \<Rightarrow> string option" where
  "or_else a b = (if truthy a then a else b)"

text \<open>Decimal rendering of a number in a template literal, as for \<open>${res.status}\<close>.\<close>

definition digit :: "nat \<Rightarrow> char" where
  "digit d = ''0123456789'' ! d"

function show_nat :: "nat \<Rightarrow> string" where
  "show_nat n = (if n < 10 then [digit n] else show_nat (n div 10) @ [digit (n mod 10)])"
  by pat_completeness auto
termination
  by (relation "measure id") auto

declare show_nat.simps [simp del]

text \<open>
  The characters matched by \<open>\s\<close> and removed by \<open>trim()\<close>, among the code units below 256:
  tab, line feed, vertical tab, form feed, carriage return, space and no-break space.
\<close>

definition is_space :: "char \<Rightarrow> bool" where
  "is_space c = (c \<in> set [CHR 0x09, CHR 0x0A, CHR 0x0B, CHR 0x0C, CHR 0x0D, CHR 0x20, CHR 0xA0])"

text \<open>
  \<open>s.replace(/<[^>]*>/g, " ")\<close>: scanning from the left, a \<open><\<close> that has a \<open>>\<close> somewhere after
  it starts a match that runs to the first such \<open>>\<close>; the match becomes one space and the scan
  resumes after it. A \<open><\<close> with no \<open>>\<close> after it matches nothing and is kept.
\<close>

function strip_tags :: "string \<Rightarrow> string" where
  "strip_tags [] = []"
| "strip_tags (c # cs) =
     (if c = CHR ''<'' \<and> CHR ''>'' \<in> set cs
      then CHR '' '' # strip_tags (tl (dropWhile (\<lambda>x. x \<noteq> CHR ''>'') cs))
      else c # strip_tags cs)"
  by pat_completeness auto
termination
proof (relation "measure length")
  fix c :: char and cs :: string
  have "length (tl (dropWhile (\<lambda>x. x \<noteq> CHR ''>'') cs)) \<le> length cs"
    using length_dropWhile_le [of "\<lambda>x. x \<noteq> CHR ''>''" cs] by simp
  then show "(tl (dropWhile (\<lambda>x. x \<noteq> CHR ''>'') cs), c # cs) \<in> measure length"
    by simp
qed simp_all

text \<open>\<open>s.replace(/\s+/g, " ")\<close>: every maximal run of white space becomes one space.\<close>

function collapse_spaces :: "string \<Rightarrow> string" where
  "collapse_spaces [] = []"
| "collapse_spaces (c # cs) =
     (if is_space c then CHR '' '' # collapse_spaces (dropWhile is_space cs)
      else c # collapse_spaces cs)"
  by pat_completeness auto
termination
proof (relation "measure length")
  fix c :: char and cs :: string
  show "(dropWhile is_space cs, c # cs) \<in> measure length"
    using length_dropWhile_le [of is_space cs] by simp
qed simp_all

text \<open>\<open>s.trim()\<close>.\<close>

definition trim :: "string \<Rightarrow> string" where
  "trim s = rev (dropWhile is_space (rev (dropWhile is_space s)))"

text \<open>
  \<open>s.split("/")\<close>: the pieces between the separators; the empty string splits into one
  empty piece.
\<close>

fun split :: "char \<Rightarrow> string \<Rightarrow> string list" where
  "split sep [] = [[]]"
| "split sep (c # cs) =
     (if c = sep then [] # split sep cs
      else (case split sep cs of [] \<Rightarrow> [[c]] | piece # pieces \<Rightarrow> (c # piece) # pieces))"

text \<open>\<open>xs.pop()\<close> read for its value: the last element, \<open>undefined\<close> on an empty array.\<close>

definition pop :: "'a list \<Rightarrow> 'a option" where
  "pop xs = (if xs = [] then None else Some (last xs))"

section \<open>The outside world\<close>

record Config =
  shopwareApiUrl :: string
  shopwareClientId :: string
  shopwareClientSecret :: string
  openaiApiKey :: string
  salesChannelId :: string

text \<open>
  The requests the client sends to the catalogue, by endpoint and payload:
  \<^item> \<open>OAuthToken client_id client_secret\<close>: POST /api/oauth/token;
  \<^item> \<open>SearchProduct limit page salesChannelId associations\<close>: POST /api/search/product;
  \<^item> \<open>CreateMedia id\<close>: POST /api/media;
  \<^item> \<open>UploadMedia mediaId fileName bytes\<close>: POST /api/_action/media/{mediaId}/upload;
  \<^item> \<open>CreateProductMedia productId mediaId\<close>: POST /api/product-media;
  \<^item> \<open>PatchProduct productId coverId\<close>: PATCH /api/product/{productId}.
\<close>

datatype Request =
    OAuthToken string string
  | SearchProduct nat nat string "string list"
  | CreateMedia string
  | UploadMedia string string Buffer
  | CreateProductMedia string string
  | PatchProduct string string

text \<open>
  What the code reads of a response: \<open>res.ok\<close>, \<open>res.status\<close>, \<open>res.text()\<close>, the
  \<open>location\<close> header, and \<open>res.json()\<close> read as a search response (\<open>total\<close>, \<open>data\<close>)
  or as an auth token (\<open>access_token\<close>).
\<close>

record Response =
  ok :: bool
  http_status :: nat
  body :: string
  location :: "string option"
  json_total :: int
  json_data :: "ShopwareProduct list"
  json_access_token :: string

text \<open>
  Everything the program does not decide, fixed for one run:
  \<^item> \<open>server k req\<close>: what \<open>fetch\<close> gives when the request number \<open>k\<close> of the run
    (counted from 0) is \<open>req\<close>: a rejection or a response;
  \<^item> \<open>answers k\<close>: what \<open>ask\<close> resolves to for question number \<open>k\<close>, that is the
    operator's line, trimmed and in lower case;
  \<^item> \<open>images_generate k prompt\<close>: call number \<open>k\<close> of the image service: a rejection, or
    \<open>response.data?.[0]?.b64_json\<close>;
  \<^item> \<open>from_base64\<close>: \<open>Buffer.from(b64, "base64")\<close>;
  \<^item> \<open>randomUUID k\<close>: draw number \<open>k\<close> of \<open>crypto.randomUUID()\<close>;
  \<^item> \<open>template_path\<close>: \<open>path.resolve(process.cwd(), "prompt-template.txt")\<close>;
  \<^item> \<open>template_file\<close>: the content of that file, \<open>None\<close> when it does not exist.
\<close>

record Env =
  server :: "nat \<Rightarrow> Request \<Rightarrow> Thrown + Response"
  answers :: "nat \<Rightarrow> string"
  images_generate :: "nat \<Rightarrow> string \<Rightarrow> Thrown + string option"
  from_base64 :: "string \<Rightarrow> Buffer"
  randomUUID :: "nat \<Rightarrow> string"
  template_path :: string
  template_file :: "string option"

text \<open>
  Left out of the model: what is written to the console, and the failures of the file system
  calls (\<open>existsSync\<close>, \<open>readFileSync\<close>, \<open>writeFileSync\<close> and \<open>mkdirSync\<close> are taken to
  succeed). Two products with different ids have different preview files.
\<close>

text \<open>
  The mutable state of a run:
  \<^item> \<open>requests\<close>: the requests sent so far, oldest first;
  \<^item> \<open>accessToken\<close>: the field of \<open>ShopwareClient\<close>;
  \<^item> \<open>files\<close>: the previews temp/{id}.png, by product id;
  \<^item> \<open>questions\<close>: the questions put to the operator so far;
  \<^item> \<open>prompts\<close>: the prompts sent to the image service so far;
  \<^item> \<open>uuids\<close>: the number of UUIDs drawn so far;
  \<^item> \<open>results\<close>: the array \<open>results\<close> of \<open>main\<close>.
\<close>

record World =
  requests :: "Request list"
  accessToken :: "string option"
  files :: "string \<rightharpoonup> Buffer"
  questions :: "string list"
  prompts :: "string list"
  uuids :: nat
  results :: "ProcessingResult list"

text \<open>
  An operation that may throw and changes the world: the state reached is kept on both
  outcomes, since a \<open>catch\<close> sees the effects that happened before the \<open>throw\<close>.
\<close>

type_synonym 'a Async = "World \<Rightarrow> (Thrown + 'a) \<times> World"

definition ret :: "'a \<Rightarrow> 'a Async" where
  "ret x = (\<lambda>w. (Inr x, w))"

definition throw :: "Thrown \<Rightarrow> 'a Async" where
  "throw e = (\<lambda>w. (Inl e, w))"

text \<open>\<open>const x = await m; k x\<close>\<close>

definition await :: "'a Async \<Rightarrow> ('a \<Rightarrow> 'b Async) \<Rightarrow> 'b Async" where
  "await m k = (\<lambda>w. case m w of (Inl e, w') \<Rightarrow> (Inl e, w') | (Inr x, w') \<Rightarrow> k x w')"

definition fetch :: "Env \<Rightarrow> Request \<Rightarrow> Response Async" where
  "fetch env req = (\<lambda>w. (server env (length (requests w)) req, w\<lparr>requests := requests w @ [req]\<rparr>))"

definition ask :: "Env \<Rightarrow> string \<Rightarrow> string Async" where
  "ask env question = (\<lambda>w. (Inr (answers env (length (questions w))), w\<lparr>questions := questions w @ [question]\<rparr>))"

section \<open>The catalogue client (src/shopware.ts)\<close>

definition uuid :: "Env \<Rightarrow> World \<Rightarrow> string \<times> World" where
  "uuid env w = (filter (\<lambda>c. c \<noteq> CHR ''-'') (randomUUID env (uuids w)), w\<lparr>uuids := Suc (uuids w)\<rparr>)"

definition failure :: "string \<Rightarrow> Response \<Rightarrow> Thrown" where
  "failure what res = Error (what @ '' ('' @ show_nat (http_status res) @ ''): '' @ body res)"

definition authenticate :: "Env \<Rightarrow> Config \<Rightarrow> unit Async" where
  "authenticate env config =
     await (fetch env (OAuthToken (shopwareClientId config) (shopwareClientSecret config))) (\<lambda>res.
       if \<not> ok res then throw (failure ''Shopware auth failed'' res)
       else (\<lambda>w. (Inr (), w\<lparr>accessToken := Some (json_access_token res)\<rparr>)))"

text \<open>The headers carry the token; the model keeps the bearer string.\<close>

definition getHeaders :: "World \<Rightarrow> Thrown + string" where
  "getHeaders w =
     (if \<not> truthy (accessToken w) then Inl (Error ''Not authenticated. Call authenticate() first.'')
      else Inr (''Bearer '' @ the (accessToken w)))"

definition headers :: "string Async" where
  "headers = (\<lambda>w. (getHeaders w, w))"

definition limit :: nat where
  "limit = 25"

text \<open>
  The loop of \<open>fetchProductsWithoutImages\<close>, from the state at the top of one iteration.
  It may run forever (a server that always sends a full page and a larger total), so it
  returns an option: \<open>None\<close> is the loop that never ends.
\<close>

partial_function (option) fetchProductsWithoutImages_loop ::
  "Env \<Rightarrow> string \<Rightarrow> nat \<Rightarrow> ShopwareProduct list \<Rightarrow> World
     \<Rightarrow> ((Thrown + ShopwareProduct list) \<times> World) option" where
  "fetchProductsWithoutImages_loop env channel page allProducts w =
     (case getHeaders w of
        Inl e \<Rightarrow> Some (Inl e, w)
      | Inr hs \<Rightarrow>
          (case fetch env (SearchProduct limit page channel [''cover'', ''media'']) w of
             (Inl e, w1) \<Rightarrow> Some (Inl e, w1)
           | (Inr res, w1) \<Rightarrow>
               if \<not> ok res then Some (Inl (failure ''Failed to fetch products'' res), w1)
               else
                 let allProducts1 = allProducts @ json_data res in
                 if json_total res \<le> int (length allProducts1) \<or> length (json_data res) < limit
                 then Some (Inr allProducts1, w1)
                 else fetchProductsWithoutImages_loop env channel (page + 1) allProducts1 w1))"

declare fetchProductsWithoutImages_loop.simps [code]

definition fetchProductsWithoutImages ::
  "Env \<Rightarrow> string \<Rightarrow> World \<Rightarrow> ((Thrown + ShopwareProduct list) \<times> World) option" where
  "fetchProductsWithoutImages env channel w =
     (case fetchProductsWithoutImages_loop env channel 1 [] w of
        None \<Rightarrow> None
      | Some (Inl e, w1) \<Rightarrow> Some (Inl e, w1)
      | Some (Inr allProducts, w1) \<Rightarrow>
          Some (Inr (filter (\<lambda>p. \<not> truthy (coverId p)) allProducts), w1))"

record Listing =
  total :: nat
  withoutImages :: "ShopwareProduct list"

partial_function (option) fetchAllProducts_loop ::
  "Env \<Rightarrow> string \<Rightarrow> nat \<Rightarrow> ShopwareProduct list \<Rightarrow> World
     \<Rightarrow> ((Thrown + ShopwareProduct list) \<times> World) option" where
  "fetchAllProducts_loop env channel page allProducts w =
     (case getHeaders w of
        Inl e \<Rightarrow> Some (Inl e, w)
      | Inr hs \<Rightarrow>
          (case fetch env (SearchProduct limit page channel [''cover'']) w of
             (Inl e, w1) \<Rightarrow> Some (Inl e, w1)
           | (Inr res, w1) \<Rightarrow>
               if \<not> ok res then Some (Inl (failure ''Failed to fetch products'' res), w1)
               else
                 let allProducts1 = allProducts @ json_data res in
                 if json_total res \<le> int (length allProducts1) \<or> length (json_data res) < limit
                 then Some (Inr allProducts1, w1)
                 else fetchAllProducts_loop env channel (page + 1) allProducts1 w1))"

declare fetchAllProducts_loop.simps [code]

definition fetchAllProducts ::
  "Env \<Rightarrow> string \<Rightarrow> World \<Rightarrow> ((Thrown + Listing) \<times> World) option" where
  "fetchAllProducts env channel w =
     (case fetchAllProducts_loop env channel 1 [] w of
        None \<Rightarrow> None
      | Some (Inl e, w1) \<Rightarrow> Some (Inl e, w1)
      | Some (Inr allProducts, w1) \<Rightarrow>
          Some (Inr \<lparr>total = length allProducts,
                     withoutImages = filter (\<lambda>p. \<not> truthy (coverId p)) allProducts\<rparr>, w1))"

text \<open>
  Step 1 creates the media entity under an id drawn by the client, step 2 sends the bytes.
  Step 2 writes its own headers from the token and does not call \<open>getHeaders\<close>.
\<close>

definition uploadMedia :: "Env \<Rightarrow> Buffer \<Rightarrow> string \<Rightarrow> string Async" where
  "uploadMedia env imageBuffer file =
     (\<lambda>w. let (mediaId, w0) = uuid env w in
       await headers (\<lambda>hs.
       await (fetch env (CreateMedia mediaId)) (\<lambda>createRes.
         if \<not> ok createRes then throw (failure ''Failed to create media entity'' createRes)
         else
           await (fetch env (UploadMedia mediaId file imageBuffer)) (\<lambda>uploadRes.
             if \<not> ok uploadRes then throw (failure ''Failed to upload media file'' uploadRes)
             else ret mediaId))) w0)"

text \<open>\<open>assocRes.headers.get("location")?.split("/").pop()\<close>\<close>

definition location_id :: "Response \<Rightarrow> string option" where
  "location_id res = (case location res of None \<Rightarrow> None | Some l \<Rightarrow> pop (split CHR ''/'' l))"

definition assignMediaToProduct :: "Env \<Rightarrow> string \<Rightarrow> string \<Rightarrow> unit Async" where
  "assignMediaToProduct env product mediaId =
     await headers (\<lambda>hs.
     await (fetch env (CreateProductMedia product mediaId)) (\<lambda>assocRes.
       if \<not> ok assocRes
       then throw (failure ''Failed to create product-media association'' assocRes)
       else
         let productMediaId = location_id assocRes in
         if \<not> truthy productMediaId
         then throw (Error ''Failed to get product-media ID from response'')
         else
           await headers (\<lambda>hs.
           await (fetch env (PatchProduct product (the productMediaId))) (\<lambda>coverRes.
             if \<not> ok coverRes then throw (failure ''Failed to set cover image'' coverRes)
             else ret ()))))"

section \<open>The image generator (src/openai.ts)\<close>

text \<open>The constructor: the trimmed template, or the error for a missing file.\<close>

definition new_ImageGenerator :: "Env \<Rightarrow> Thrown + string" where
  "new_ImageGenerator env =
     (case template_file env of
        None \<Rightarrow> Inl (Error (''Prompt template not found at '' @ template_path env))
      | Some content \<Rightarrow> Inr (trim content))"

definition buildPrompt :: "string \<Rightarrow> string \<Rightarrow> string option \<Rightarrow> string" where
  "buildPrompt template product_name product_description =
     (let prompt = template @ [CHR 0x0A, CHR 0x0A] @ ''Product name: '' @ product_name in
      if truthy product_description
      then
        let cleaned = trim (collapse_spaces (strip_tags (the product_description))) in
        prompt @ [CHR 0x0A] @ ''Product description: '' @ cleaned
      else prompt)"

definition generate :: "Env \<Rightarrow> string \<Rightarrow> string \<Rightarrow> string option \<Rightarrow> Buffer Async" where
  "generate env template product_name product_description =
     (\<lambda>w. let prompt = buildPrompt template product_name product_description;
              w1 = w\<lparr>prompts := prompts w @ [prompt]\<rparr> in
       case images_generate env (length (prompts w)) prompt of
         Inl e \<Rightarrow> (Inl e, w1)
       | Inr b64 \<Rightarrow>
           if \<not> truthy b64 then (Inl (Error ''No image data returned from OpenAI''), w1)
           else (Inr (from_base64 env (the b64)), w1))"

section \<open>The run (src/index.ts)\<close>

text \<open>\<open>fs.writeFileSync(previewPath, imageBuffer)\<close>\<close>

definition writeFileSync :: "string \<Rightarrow> Buffer \<Rightarrow> unit Async" where
  "writeFileSync product imageBuffer = (\<lambda>w. (Inr (), w\<lparr>files := (files w)(product \<mapsto> imageBuffer)\<rparr>))"

text \<open>\<open>results.push(r)\<close>\<close>

definition push :: "ProcessingResult \<Rightarrow> unit Async" where
  "push r = (\<lambda>w. (Inr (), w\<lparr>results := results w @ [r]\<rparr>))"

text \<open>\<open>product.translated?.name || product.name\<close>\<close>

definition display_name :: "ShopwareProduct \<Rightarrow> string" where
  "display_name product =
     (case translated product of
        None \<Rightarrow> name product
      | Some t \<Rightarrow> if translated_name t \<noteq> [] then translated_name t else name product)"

text \<open>\<open>product.translated?.description || product.description\<close>\<close>

definition display_description :: "ShopwareProduct \<Rightarrow> string option" where
  "display_description product =
     (case translated product of
        None \<Rightarrow> description product
      | Some t \<Rightarrow> or_else (translated_description t) (description product))"

text \<open>How the statements of the \<open>try\<close> block before the upload end: by \<open>break\<close> or
  \<open>continue\<close>, or by reaching the upload with \<open>imageBuffer\<close> set.\<close>

datatype Control = Break | Continue

text \<open>Push the \<open>skipped\<close> result and \<open>continue\<close>.\<close>

definition skip :: "ShopwareProduct \<Rightarrow> (Control + Buffer) Async" where
  "skip product =
     await (push \<lparr>productId = product_id product, productName = display_name product,
                   status = skipped, error = None\<rparr>) (\<lambda>u.
     ret (Inl Continue))"

text \<open>The branch \<open>r\<close>, the same statements at lines 126-137 and 165-176 of index.ts.\<close>

definition regenerate :: "Env \<Rightarrow> string \<Rightarrow> ShopwareProduct \<Rightarrow> (Control + Buffer) Async" where
  "regenerate env template product =
     await (generate env template (display_name product) (display_description product)) (\<lambda>imageBuffer.
     await (writeFileSync (product_id product) imageBuffer) (\<lambda>u.
     await (ask env ''  Upload this image to Shopware? (y/n): '') (\<lambda>confirm.
       if confirm \<noteq> ''y'' then skip product
       else ret (Inr imageBuffer))))"

text \<open>
  Lines 103-183: the choice of the image. \<open>hasExistingImage\<close> is the lookup of the preview
  in \<open>files\<close>, and reading the file gives the content found there.
\<close>

definition choose_image :: "Env \<Rightarrow> string \<Rightarrow> bool \<Rightarrow> ShopwareProduct \<Rightarrow> (Control + Buffer) Async" where
  "choose_image env template batch product =
     (\<lambda>w.
       (if batch then
          (case files w (product_id product) of
             Some content \<Rightarrow> ret (Inr content)
           | None \<Rightarrow>
               await (generate env template (display_name product) (display_description product)) (\<lambda>imageBuffer.
               await (writeFileSync (product_id product) imageBuffer) (\<lambda>u.
               ret (Inr imageBuffer))))
        else
          (case files w (product_id product) of
             Some content \<Rightarrow>
               await (ask env (CHR 0x0A # ''  Image exists. Upload to Shopware? (y/n/r=regenerate/q=quit): '')) (\<lambda>uploadAnswer.
                 if uploadAnswer = ''q'' then ret (Inl Break)
                 else if uploadAnswer = ''r'' then regenerate env template product
                 else if uploadAnswer = ''y'' then ret (Inr content)
                 else skip product)
           | None \<Rightarrow>
               await (ask env (CHR 0x0A # ''  Generate image? (y/n/q=quit): '')) (\<lambda>generateAnswer.
                 if generateAnswer = ''q'' then ret (Inl Break)
                 else if generateAnswer \<noteq> ''y'' then skip product
                 else
                   await (generate env template (display_name product) (display_description product)) (\<lambda>imageBuffer.
                   await (writeFileSync (product_id product) imageBuffer) (\<lambda>u.
                   await (ask env ''  Upload this image to Shopware? (y/n/r=regenerate): '') (\<lambda>uploadAnswer.
                     if uploadAnswer = ''r'' then regenerate env template product
                     else if uploadAnswer \<noteq> ''y'' then skip product
                     else ret (Inr imageBuffer))))))) w)"

text \<open>Lines 185-191: the upload, the assignment and the \<open>uploaded\<close> result.\<close>

definition upload :: "Env \<Rightarrow> ShopwareProduct \<Rightarrow> Buffer \<Rightarrow> Control Async" where
  "upload env product imageBuffer =
     await (uploadMedia env imageBuffer (''ai-product-'' @ product_id product)) (\<lambda>mediaId.
     await (assignMediaToProduct env (product_id product) mediaId) (\<lambda>u.
     await (push \<lparr>productId = product_id product, productName = display_name product,
                   status = uploaded, error = None\<rparr>) (\<lambda>u.
     ret Continue)))"

text \<open>The \<open>try\<close> block.\<close>

definition try_block :: "Env \<Rightarrow> string \<Rightarrow> bool \<Rightarrow> ShopwareProduct \<Rightarrow> Control Async" where
  "try_block env template batch product =
     await (choose_image env template batch product) (\<lambda>chosen.
       case chosen of
         Inl control \<Rightarrow> ret control
       | Inr imageBuffer \<Rightarrow> upload env product imageBuffer)"

text \<open>One iteration of the \<open>for\<close> loop: the \<open>try\<close> block and its \<open>catch\<close>.\<close>

definition process_item :: "Env \<Rightarrow> string \<Rightarrow> bool \<Rightarrow> ShopwareProduct \<Rightarrow> World \<Rightarrow> Control \<times> World" where
  "process_item env template batch product w =
     (case try_block env template batch product w of
        (Inr control, w1) \<Rightarrow> (control, w1)
      | (Inl err, w1) \<Rightarrow>
          (Continue,
           w1\<lparr>results := results w1 @
             [\<lparr>productId = product_id product, productName = display_name product,
               status = failed, error = Some (message err)\<rparr>]\<rparr>))"

text \<open>The \<open>for\<close> loop over \<open>withoutImages\<close>.\<close>

fun process_items :: "Env \<Rightarrow> string \<Rightarrow> bool \<Rightarrow> ShopwareProduct list \<Rightarrow> World \<Rightarrow> World" where
  "process_items env template batch [] w = w"
| "process_items env template batch (product # rest) w =
     (case process_item env template batch product w of
        (Break, w1) \<Rightarrow> w1
      | (Continue, w1) \<Rightarrow> process_items env template batch rest w1)"

text \<open>
  \<open>main\<close> after the configuration is loaded, with the flags \<open>--dry-run\<close> and \<open>--batch\<close>.
  \<open>None\<close> is a run whose listing never ends; \<open>Inl\<close> is the fatal error that reaches
  \<open>main().catch\<close>.
\<close>

definition main :: "Env \<Rightarrow> Config \<Rightarrow> bool \<Rightarrow> bool \<Rightarrow> World \<Rightarrow> ((Thrown + unit) \<times> World) option" where
  "main env config dryRun batch w =
     (case authenticate env config w of
        (Inl e, w1) \<Rightarrow> Some (Inl e, w1)
      | (Inr u, w1) \<Rightarrow>
          (case fetchAllProducts env (salesChannelId config) w1 of
             None \<Rightarrow> None
           | Some (Inl e, w2) \<Rightarrow> Some (Inl e, w2)
           | Some (Inr listing, w2) \<Rightarrow>
               if length (withoutImages listing) = 0 then Some (Inr (), w2)
               else if dryRun then Some (Inr (), w2)
               else
                 (case new_ImageGenerator env of
                    Inl e \<Rightarrow> Some (Inl e, w2)
                  | Inr template \<Rightarrow>
                      Some (Inr (), process_items env template batch (withoutImages listing) w2))))"

text \<open>The summary: how many results have a given status.\<close>

definition count_status :: "Status \<Rightarrow> World \<Rightarrow> nat" where
  "count_status s w = length (filter (\<lambda>r. status r = s) (results w))"

section \<open>Environments and quantities used in the statements\<close>

text \<open>The object literals that \<open>main\<close> pushes to \<open>results\<close>.\<close>

definition result_of :: "ShopwareProduct \<Rightarrow> Status \<Rightarrow> ProcessingResult" where
  "result_of product s =
     \<lparr>productId = product_id product, productName = display_name product,
      status = s, error = None\<rparr>"

definition failed_result :: "ShopwareProduct \<Rightarrow> Thrown \<Rightarrow> ProcessingResult" where
  "failed_result product err =
     \<lparr>productId = product_id product, productName = display_name product,
      status = failed, error = Some (message err)\<rparr>"

text \<open>What the \<open>catch\<close> clause makes of the outcome of a part of the \<open>try\<close> block.\<close>

definition caught :: "ShopwareProduct \<Rightarrow> (Thrown + Control) \<times> World \<Rightarrow> Control \<times> World" where
  "caught product outcome =
     (case outcome of
        (Inl err, w) \<Rightarrow> (Continue, w\<lparr>results := results w @ [failed_result product err]\<rparr>)
      | (Inr control, w) \<Rightarrow> (control, w))"

text \<open>The last path segment of a URL: what follows its last slash.\<close>

definition last_segment :: "string \<Rightarrow> string" where
  "last_segment l = rev (takeWhile (\<lambda>c. c \<noteq> CHR ''/'') (rev l))"

text \<open>The requests of \<open>fetchAllProducts\<close> for the pages \<open>lo\<close> to \<open>hi\<close>.\<close>

definition search_pages :: "string \<Rightarrow> nat \<Rightarrow> nat \<Rightarrow> Request list" where
  "search_pages channel lo hi =
     map (\<lambda>page. SearchProduct limit page channel [''cover'']) [lo..<Suc hi]"

text \<open>The number of pages of \<open>limit\<close> items that hold \<open>T\<close> items, and at least one.\<close>

definition pages_needed :: "nat \<Rightarrow> nat" where
  "pages_needed T = max 1 ((T + (limit - 1)) div limit)"

text \<open>
  A catalogue that holds \<open>items\<close> and answers every search of the channel with success, the
  total \<open>length items\<close> and the requested slice of \<open>items\<close>.
\<close>

definition serves :: "Env \<Rightarrow> string \<Rightarrow> ShopwareProduct list \<Rightarrow> bool" where
  "serves env channel items \<longleftrightarrow>
     (\<forall>k page assoc. \<exists>res.
        server env k (SearchProduct limit page channel assoc) = Inr res \<and> ok res
        \<and> json_total res = int (length items)
        \<and> json_data res = take limit (drop ((page - 1) * limit) items))"

text \<open>The two kinds of search request get the same answers, page by page.\<close>

definition same_pages :: "Env \<Rightarrow> string \<Rightarrow> bool" where
  "same_pages env channel \<longleftrightarrow>
     (\<forall>k page. server env k (SearchProduct limit page channel [''cover'', ''media''])
        = server env k (SearchProduct limit page channel [''cover'']))"

text \<open>Two worlds with the same token and as many requests sent.\<close>

definition sim :: "World \<Rightarrow> World \<Rightarrow> bool" where
  "sim w w' \<longleftrightarrow> accessToken w = accessToken w' \<and> length (requests w) = length (requests w')"

text \<open>
  The items of the responses to the requests \<open>reqs\<close>, sent as the requests number
  \<open>k\<close>, \<open>k + 1\<close>, ... of the run.
\<close>

fun page_items :: "Env \<Rightarrow> nat \<Rightarrow> Request list \<Rightarrow> ShopwareProduct list" where
  "page_items env k [] = []"
| "page_items env k (req # reqs) =
     (case server env k req of Inl e \<Rightarrow> [] | Inr res \<Rightarrow> json_data res) @ page_items env (Suc k) reqs"

text \<open>The items accumulated between two states of the world.\<close>

definition accumulated :: "Env \<Rightarrow> World \<Rightarrow> World \<Rightarrow> ShopwareProduct list" where
  "accumulated env w w' =
     page_items env (length (requests w)) (drop (length (requests w)) (requests w'))"

text \<open>A server, an operator and a state to run the program on.\<close>

definition response_ok :: Response where
  "response_ok = \<lparr>ok = True, http_status = 200, body = [], location = None, json_total = 0,
     json_data = [], json_access_token = ''token''\<rparr>"

definition response_error :: Response where
  "response_error = response_ok\<lparr>ok := False, http_status := 500, body := ''down''\<rparr>"

definition product_of :: "string \<Rightarrow> string option \<Rightarrow> ShopwareProduct" where
  "product_of pid cid =
     \<lparr>product_id = pid, name = ''Item '' @ pid, description = Some ''<p>Nice</p>'',
      productNumber = ''SW-'' @ pid, coverId = cid, cover = None, translated = None\<rparr>"

definition catalog_page :: "ShopwareProduct list \<Rightarrow> nat \<Rightarrow> Response" where
  "catalog_page items page =
     response_ok\<lparr>json_total := int (length items),
                  json_data := take limit (drop ((page - 1) * limit) items)\<rparr>"

definition shop_server :: "ShopwareProduct list \<Rightarrow> nat \<Rightarrow> Request \<Rightarrow> Thrown + Response" where
  "shop_server items k req =
     (case req of
        SearchProduct l page channel assoc \<Rightarrow> Inr (catalog_page items page)
      | CreateProductMedia p m \<Rightarrow>
          Inr (response_ok\<lparr>location := Some (''/api/product-media/pm-'' @ p)\<rparr>)
      | _ \<Rightarrow> Inr response_ok)"

definition env_of :: "(nat \<Rightarrow> Request \<Rightarrow> Thrown + Response) \<Rightarrow> (nat \<Rightarrow> string) \<Rightarrow> Env" where
  "env_of srv ans =
     \<lparr>server = srv, answers = ans,
      images_generate = (\<lambda>k prompt. Inr (Some ''aW1hZ2U='')), from_base64 = (\<lambda>b64. b64),
      randomUUID = (\<lambda>k. if k = 0 then ''0a-0'' else if k = 1 then ''0a-1'' else ''0a-2''),
      template_path = ''/prompt-template.txt'',
      template_file = Some ''Photo of the product.''\<rparr>"

definition config0 :: Config where
  "config0 = \<lparr>shopwareApiUrl = ''https://shop.example'', shopwareClientId = ''id'',
     shopwareClientSecret = ''secret'', openaiApiKey = ''key'', salesChannelId = ''channel''\<rparr>"

definition world0 :: World where
  "world0 = \<lparr>requests = [], accessToken = Some ''token'', files = Map.empty, questions = [],
     prompts = [], uuids = 0, results = []\<rparr>"

definition always_ok :: "nat \<Rightarrow> Request \<Rightarrow> Thrown + Response" where
  "always_ok k req = Inr response_ok"

text \<open>The operator who types the given lines, and then \<open>n\<close> for ever.\<close>

definition answers_of :: "string list \<Rightarrow> nat \<Rightarrow> string" where
  "answers_of lines k = (if k < length lines then lines ! k else ''n'')"

definition upload_down :: "nat \<Rightarrow> Request \<Rightarrow> Thrown + Response" where
  "upload_down k req =
     (case req of UploadMedia m f b \<Rightarrow> Inr response_error | _ \<Rightarrow> shop_server [] k req)"

definition cached :: World where
  "cached = world0\<lparr>files := [''a'' \<mapsto> ''bytes'']\<rparr>"

definition five_items :: "ShopwareProduct list" where
  "five_items = [product_of ''a'' None, product_of ''b'' None, product_of ''c'' None,
     product_of ''d'' None, product_of ''e'' None]"

definition after_first :: World where
  "after_first = world0\<lparr>questions := [CHR 0x0A # ''  Generate image? (y/n/q=quit): ''],
     results := [result_of (product_of ''a'' None) skipped]\<rparr>"

definition four_items :: "ShopwareProduct list" where
  "four_items = [product_of ''a'' None, product_of ''x'' (Some ''cover-x''),
     product_of ''b'' None, product_of ''c'' None]"

definition start :: World where
  "start = \<lparr>requests = [], accessToken = None, files = [''a'' \<mapsto> ''bytes''], questions = [],
     prompts = [], uuids = 0, results = []\<rparr>"

text \<open>What a run leaves to count: the statuses and the products of the results, the number of
  calls of the image service and the number of calls of \<open>uploadMedia\<close>.\<close>

definition tally :: "World \<Rightarrow> Status list \<times> string list \<times> nat \<times> nat" where
  "tally w = (map status (results w), map productId (results w), length (prompts w), uuids w)"

definition no_images :: "nat \<Rightarrow> string \<Rightarrow> Thrown + string option" where
  "no_images k prompt = Inl (Error ''quota exceeded'')"

definition failing :: Env where
  "failing = (env_of upload_down (answers_of []))\<lparr>images_generate := no_images\<rparr>"

definition upload_failed :: World where
  "upload_failed = cached\<lparr>uuids := 1,
     requests := [CreateMedia ''0a0'', UploadMedia ''0a0'' ''ai-product-a'' ''bytes'']\<rparr>"

text \<open>A tag is left in a text when a \<open><\<close> has a \<open>>\<close> somewhere after it: then, and only then,
  \<open>/<[^>]*>/\<close> matches.\<close>

fun has_tag :: "string \<Rightarrow> bool" where
  "has_tag [] = False"
| "has_tag (c # cs) = ((c = CHR ''<'' \<and> CHR ''>'' \<in> set cs) \<or> has_tag cs)"

text \<open>White space is collapsed in a text when each white space character is a space and is
  not followed by another.\<close>

fun collapsed :: "string \<Rightarrow> bool" where
  "collapsed [] = True"
| "collapsed [c] = (is_space c \<longrightarrow> c = CHR '' '')"
| "collapsed (c # d # cs) = ((is_space c \<longrightarrow> c = CHR '' '' \<and> \<not> is_space d) \<and> collapsed (d # cs))"

definition angle :: "char \<Rightarrow> bool" where
  "angle c = (c = CHR ''<'' \<or> c = CHR ''>'')"

text \<open>
  The four requests of the upload and the assignment of the bytes \<open>buf\<close> to the product
  \<open>pid\<close>, sent from the world \<open>w\<close>, the cover being set to the association \<open>c\<close>.
\<close>

definition protocol_requests :: "Env \<Rightarrow> World \<Rightarrow> string \<Rightarrow> Buffer \<Rightarrow> string \<Rightarrow> Request list" where
  "protocol_requests env w pid buf c =
     [CreateMedia (fst (uuid env w)),
      UploadMedia (fst (uuid env w)) (''ai-product-'' @ pid) buf,
      CreateProductMedia pid (fst (uuid env w)),
      PatchProduct pid c]"

text \<open>
  The client is authenticated and the server answers the four requests with success, the
  association response carrying a location whose last segment is \<open>c\<close>.
\<close>

definition accepts :: "Env \<Rightarrow> World \<Rightarrow> string \<Rightarrow> Buffer \<Rightarrow> string \<Rightarrow> bool" where
  "accepts env w pid buf c \<longleftrightarrow>
     truthy (accessToken w) \<and> c \<noteq> [] \<and>
     (\<exists>r1 r2 r3 r4 l.
        server env (length (requests w)) (CreateMedia (fst (uuid env w))) = Inr r1 \<and> ok r1
      \<and> server env (length (requests w) + 1)
           (UploadMedia (fst (uuid env w)) (''ai-product-'' @ pid) buf) = Inr r2 \<and> ok r2
      \<and> server env (length (requests w) + 2) (CreateProductMedia pid (fst (uuid env w))) = Inr r3
      \<and> ok r3 \<and> location r3 = Some l \<and> last_segment l = c
      \<and> server env (length (requests w) + 3) (PatchProduct pid c) = Inr r4 \<and> ok r4)"

text \<open>The world at the end of the run of the example.\<close>

definition finished :: World where
  "finished =
     \<lparr>requests =
        [OAuthToken ''id'' ''secret'', SearchProduct 25 1 ''channel'' [''cover''],
         CreateMedia ''0a0'', UploadMedia ''0a0'' ''ai-product-a'' ''bytes'',
         CreateProductMedia ''a'' ''0a0'', PatchProduct ''a'' ''pm-a'',
         CreateMedia ''0a1'', UploadMedia ''0a1'' ''ai-product-b'' ''aW1hZ2U='',
         CreateProductMedia ''b'' ''0a1'', PatchProduct ''b'' ''pm-b'',
         CreateMedia ''0a2'', UploadMedia ''0a2'' ''ai-product-c'' ''aW1hZ2U='',
         CreateProductMedia ''c'' ''0a2'', PatchProduct ''c'' ''pm-c''],
      accessToken = Some ''token'',
      files = [''a'' \<mapsto> ''bytes'', ''b'' \<mapsto> ''aW1hZ2U='', ''c'' \<mapsto> ''aW1hZ2U=''],
      questions = [],
      prompts =
        [''Photo of the product.'' @ [CHR 0x0A, CHR 0x0A] @ ''Product name: Item b'' @ [CHR 0x0A]
           @ ''Product description: Nice'',
         ''Photo of the product.'' @ [CHR 0x0A, CHR 0x0A] @ ''Product name: Item c'' @ [CHR 0x0A]
           @ ''Product description: Nice''],
      uuids = 3,
      results =
        [\<lparr>productId = ''a'', productName = ''Item a'', status = uploaded, error = None\<rparr>,
         \<lparr>productId = ''b'', productName = ''Item b'', status = uploaded, error = None\<rparr>,
         \<lparr>productId = ''c'', productName = ''Item c'', status = uploaded, error = None\<rparr>]\<rparr>"

definition assoc_down :: "nat \<Rightarrow> Request \<Rightarrow> Thrown + Response" where
  "assoc_down k req =
     (case req of CreateProductMedia p m \<Rightarrow> Inr response_error | _ \<Rightarrow> shop_server [] k req)"

definition no_images_yes :: Env where
  "no_images_yes = (env_of (shop_server []) (answers_of [''y'']))\<lparr>images_generate := no_images\<rparr>"

section \<open>Properties\<close>

subsection \<open>Evaluation of the operations on the world\<close>

lemma await_apply:
  "await m k w = (case m w of (Inl e, w1) \<Rightarrow> (Inl e, w1) | (Inr x, w1) \<Rightarrow> k x w1)"
  by (simp add: await_def)

lemma truthy_iff: "truthy x \<longleftrightarrow> (\<exists>s. x = Some s \<and> s \<noteq> [])"
  by (cases x) simp_all

subsection \<open>The prompt\<close>

lemma clean_example: "trim (collapse_spaces (strip_tags ''<b>Desc</b>  x'')) = ''Desc x''"
  by (simp add: trim_def is_space_def)

lemma space_not_angle: "is_space c \<Longrightarrow> \<not> angle c"
  by (auto simp add: is_space_def angle_def)

lemma strip_tags_gt: "CHR ''>'' \<in> set (strip_tags s) \<Longrightarrow> CHR ''>'' \<in> set s"
proof (induction s rule: strip_tags.induct)
  case 1
  then show ?case by simp
next
  case (2 c cs)
  show ?case
  proof (cases "c = CHR ''<'' \<and> CHR ''>'' \<in> set cs")
    case True
    then show ?thesis by simp
  next
    case False
    with 2 show ?thesis by auto
  qed
qed

lemma strip_tags_no_tag: "\<not> has_tag (strip_tags s)"
proof (induction s rule: strip_tags.induct)
  case 1
  then show ?case by simp
next
  case (2 c cs)
  show ?case
  proof (cases "c = CHR ''<'' \<and> CHR ''>'' \<in> set cs")
    case True
    with 2 show ?thesis by simp
  next
    case False
    with 2 strip_tags_gt [of cs] show ?thesis by auto
  qed
qed

lemma has_tag_filter: "has_tag (filter angle s) = has_tag s"
  by (induction s) (auto simp add: angle_def)

lemma filter_dropWhile_space: "filter angle (dropWhile is_space s) = filter angle s"
  by (induction s) (auto simp add: space_not_angle)

lemma filter_collapse: "filter angle (collapse_spaces s) = filter angle s"
proof (induction s rule: collapse_spaces.induct)
  case 1
  then show ?case by simp
next
  case (2 c cs)
  show ?case
  proof (cases "is_space c")
    case True
    with 2 show ?thesis
      by (simp add: filter_dropWhile_space space_not_angle) (simp add: angle_def)
  next
    case False
    with 2 show ?thesis by simp
  qed
qed

lemma filter_trim: "filter angle (trim s) = filter angle s"
proof -
  have "filter angle (rev (dropWhile is_space (rev (dropWhile is_space s)))) =
      rev (filter angle (dropWhile is_space (rev (dropWhile is_space s))))"
    by (simp add: rev_filter)
  also have "\<dots> = rev (filter angle (rev (dropWhile is_space s)))"
    by (simp add: filter_dropWhile_space)
  also have "\<dots> = filter angle (dropWhile is_space s)"
    by (simp add: rev_filter)
  finally show ?thesis by (simp add: trim_def filter_dropWhile_space)
qed

lemma cleaned_no_tag: "\<not> has_tag (trim (collapse_spaces (strip_tags d)))"
proof -
  have "has_tag (trim (collapse_spaces (strip_tags d))) =
      has_tag (filter angle (trim (collapse_spaces (strip_tags d))))"
    by (simp add: has_tag_filter)
  also have "\<dots> = has_tag (filter angle (strip_tags d))"
    by (simp add: filter_trim filter_collapse)
  also have "\<dots> = has_tag (strip_tags d)"
    by (simp add: has_tag_filter)
  finally show ?thesis by (simp add: strip_tags_no_tag)
qed


lemma collapsed_Cons:
  "collapsed (c # xs) \<longleftrightarrow>
     (is_space c \<longrightarrow> c = CHR '' '' \<and> (xs \<noteq> [] \<longrightarrow> \<not> is_space (hd xs))) \<and> collapsed xs"
  by (cases xs) auto

lemma collapse_spaces_Nil: "collapse_spaces s = [] \<longleftrightarrow> s = []"
  by (cases s) simp_all

lemma hd_collapse_spaces: "s \<noteq> [] \<Longrightarrow> \<not> is_space (hd s) \<Longrightarrow> hd (collapse_spaces s) = hd s"
  by (cases s) simp_all

lemma hd_dropWhile_space: "dropWhile is_space s \<noteq> [] \<Longrightarrow> \<not> is_space (hd (dropWhile is_space s))"
  using hd_dropWhile [of is_space s] by simp

lemma collapsed_collapse_spaces: "collapsed (collapse_spaces s)"
proof (induction s rule: collapse_spaces.induct)
  case 1
  then show ?case by simp
next
  case (2 c cs)
  show ?case
  proof (cases "is_space c")
    case True
    let ?r = "dropWhile is_space cs"
    have "collapse_spaces ?r \<noteq> [] \<longrightarrow> \<not> is_space (hd (collapse_spaces ?r))"
      using hd_dropWhile_space [of cs] hd_collapse_spaces [of ?r]
      by (auto simp add: collapse_spaces_Nil)
    with True 2 show ?thesis
      by (simp add: collapsed_Cons del: collapsed.simps)
  next
    case False
    with 2 show ?thesis
      by (simp add: collapsed_Cons del: collapsed.simps)
  qed
qed

lemma collapsed_tl: "collapsed s \<Longrightarrow> collapsed (tl s)"
  by (cases s) (simp_all add: collapsed_Cons del: collapsed.simps)

lemma collapsed_dropWhile: "collapsed s \<Longrightarrow> collapsed (dropWhile P s)"
  by (induction s) (auto simp add: collapsed_Cons simp del: collapsed.simps)

lemma collapsed_butlast: "collapsed s \<Longrightarrow> collapsed (butlast s)"
proof (induction s rule: collapsed.induct)
  case 1
  then show ?case by simp
next
  case (2 c)
  then show ?case by simp
next
  case (3 c d cs)
  then show ?case
    by (cases cs) (auto simp add: collapsed_Cons simp del: collapsed.simps)
qed

lemma collapsed_rev_dropWhile_rev: "collapsed s \<Longrightarrow> collapsed (rev (dropWhile P (rev s)))"
proof (induction s rule: rev_induct)
  case Nil
  then show ?case by simp
next
  case (snoc x xs)
  have "collapsed xs" using collapsed_butlast [OF snoc.prems] by simp
  with snoc show ?case by simp
qed

lemma collapsed_trim: "collapsed s \<Longrightarrow> collapsed (trim s)"
  unfolding trim_def by (intro collapsed_rev_dropWhile_rev collapsed_dropWhile)

lemma trim_ends:
  "trim s \<noteq> [] \<Longrightarrow> \<not> is_space (hd (trim s)) \<and> \<not> is_space (last (trim s))"
proof -
  assume ne: "trim s \<noteq> []"
  let ?d = "dropWhile is_space s"
  let ?r = "dropWhile is_space (rev ?d)"
  from ne have r: "?r \<noteq> []" by (simp add: trim_def)
  then have l: "\<not> is_space (hd ?r)" by (rule hd_dropWhile_space)
  have last: "last (trim s) = hd ?r"
    using r by (simp add: trim_def last_rev)
  have "?d \<noteq> []"
  proof
    assume "?d = []"
    then have "?r = []" by (simp only: rev.simps dropWhile.simps)
    with r show False by (rule notE)
  qed
  then have hd_d: "\<not> is_space (hd ?d)" by (rule hd_dropWhile_space)
  have "trim s = rev ?r" by (simp add: trim_def)
  have "hd (trim s) = hd ?d"
  proof -
    obtain n where "?r = drop n (rev ?d)"
      using dropWhile_eq_drop [of is_space "rev ?d"] by blast
    then have "rev ?r = take (length ?d - n) ?d"
      by (simp add: rev_drop)
    moreover from r \<open>?r = drop n (rev ?d)\<close> have "n < length ?d" by auto
    ultimately show ?thesis
      using \<open>?d \<noteq> []\<close> by (simp add: trim_def hd_take)
  qed
  with hd_d l last show ?thesis by simp
qed

text \<open>
  C7. \<open>buildPrompt\<close> is a function of the template, the name and the description alone.
  Without a description the prompt ends with the name line and has no description line. With
  a (non-empty) description the line added holds the description with its tags replaced,
  its white space collapsed and trimmed: no tag is left in it, each white space in it is a
  single space, and it neither begins nor ends with one. For \<open><b>Desc</b>  x\<close> that is
  \<open>Desc x\<close>.
\<close>

theorem buildPrompt_description:
  "buildPrompt template n None = template @ [CHR 0x0A, CHR 0x0A] @ ''Product name: '' @ n
   \<and> (d \<noteq> [] \<longrightarrow>
        buildPrompt template n (Some d) =
          template @ [CHR 0x0A, CHR 0x0A] @ ''Product name: '' @ n @ [CHR 0x0A]
            @ ''Product description: '' @ trim (collapse_spaces (strip_tags d)))
   \<and> \<not> has_tag (trim (collapse_spaces (strip_tags d)))
   \<and> collapsed (trim (collapse_spaces (strip_tags d)))
   \<and> (trim (collapse_spaces (strip_tags d)) \<noteq> [] \<longrightarrow>
        \<not> is_space (hd (trim (collapse_spaces (strip_tags d))))
      \<and> \<not> is_space (last (trim (collapse_spaces (strip_tags d)))))
   \<and> buildPrompt template n (Some ''<b>Desc</b>  x'') =
          template @ [CHR 0x0A, CHR 0x0A] @ ''Product name: '' @ n @ [CHR 0x0A]
            @ ''Product description: Desc x''"
proof (intro conjI)
  show "buildPrompt template n None = template @ [CHR 0x0A, CHR 0x0A] @ ''Product name: '' @ n"
    by (simp add: buildPrompt_def)
  show "d \<noteq> [] \<longrightarrow>
        buildPrompt template n (Some d) =
          template @ [CHR 0x0A, CHR 0x0A] @ ''Product name: '' @ n @ [CHR 0x0A]
            @ ''Product description: '' @ trim (collapse_spaces (strip_tags d))"
    by (simp add: buildPrompt_def del: strip_tags.simps collapse_spaces.simps)
  show "\<not> has_tag (trim (collapse_spaces (strip_tags d)))"
    by (rule cleaned_no_tag)
  show "collapsed (trim (collapse_spaces (strip_tags d)))"
    by (intro collapsed_trim collapsed_collapse_spaces)
  show "trim (collapse_spaces (strip_tags d)) \<noteq> [] \<longrightarrow>
        \<not> is_space (hd (trim (collapse_spaces (strip_tags d))))
      \<and> \<not> is_space (last (trim (collapse_spaces (strip_tags d))))"
    using trim_ends [of "collapse_spaces (strip_tags d)"] by blast
  show "buildPrompt template n (Some ''<b>Desc</b>  x'') =
          template @ [CHR 0x0A, CHR 0x0A] @ ''Product name: '' @ n @ [CHR 0x0A]
            @ ''Product description: Desc x''"
    by (simp add: buildPrompt_def clean_example del: strip_tags.simps collapse_spaces.simps)
qed

theorem buildPrompt_description_witness:
  "''<i>a</i> b'' \<noteq> []
   \<and> trim (collapse_spaces (strip_tags ''<i>a</i> b'')) = ''a b''
   \<and> ''a b'' \<noteq> []
   \<and> \<not> is_space (hd ''a b'') \<and> \<not> is_space (last ''a b'')
   \<and> buildPrompt ''T'' ''N'' (Some ''<i>a</i> b'') =
       ''T'' @ [CHR 0x0A, CHR 0x0A] @ ''Product name: N'' @ [CHR 0x0A] @ ''Product description: a b''"
proof -
  have c: "trim (collapse_spaces (strip_tags ''<i>a</i> b'')) = ''a b''"
    by (simp add: trim_def is_space_def)
  from buildPrompt_description [of "''T''" "''N''" "''<i>a</i> b''"] c show ?thesis
    by simp
qed

subsection \<open>More evaluation rules\<close>

lemma if_apply: "(if c then f else g) w = (if c then f w else g w)"
  by simp

lemma fetch_apply:
  "fetch env req w = (server env (length (requests w)) req, w\<lparr>requests := requests w @ [req]\<rparr>)"
  by (simp add: fetch_def)

lemma headers_apply: "headers w = (getHeaders w, w)"
  by (simp add: headers_def)

lemma getHeaders_truthy: "truthy (accessToken w) \<Longrightarrow> getHeaders w = Inr (''Bearer '' @ the (accessToken w))"
  by (simp add: getHeaders_def)

lemma getHeaders_falsy: "\<not> truthy (accessToken w) \<Longrightarrow> getHeaders w = Inl (Error ''Not authenticated. Call authenticate() first.'')"
  by (simp add: getHeaders_def)

subsection \<open>The association identifier\<close>

lemma split_nonempty: "split sep s \<noteq> []"
  by (induction s) (auto split: list.splits)

lemma split_no_sep: "sep \<notin> set s \<Longrightarrow> split sep s = [s]"
  by (induction s) auto

lemma split_with_sep: "sep \<in> set s \<Longrightarrow> \<exists>p q qs. split sep s = p # q # qs"
proof (induction s)
  case Nil
  then show ?case by simp
next
  case (Cons c cs)
  show ?case
  proof (cases "c = sep")
    case True
    then show ?thesis using split_nonempty [of sep cs]
      by (cases "split sep cs") auto
  next
    case False
    with Cons.prems have "sep \<in> set cs" by simp
    from Cons.IH [OF this] obtain p q qs where "split sep cs = p # q # qs" by blast
    with False show ?thesis by simp
  qed
qed

lemma last_split: "last (split sep s) = rev (takeWhile (\<lambda>c. c \<noteq> sep) (rev s))"
proof (induction s)
  case Nil
  then show ?case by simp
next
  case (Cons c cs)
  show ?case
  proof (cases "sep \<in> set cs")
    case True
    from split_with_sep [OF True] obtain p q qs where sp: "split sep cs = p # q # qs" by blast
    have "last (split sep (c # cs)) = last (split sep cs)"
      using sp by simp
    moreover have "takeWhile (\<lambda>c. c \<noteq> sep) (rev cs @ [c]) = takeWhile (\<lambda>c. c \<noteq> sep) (rev cs)"
      using True by (intro takeWhile_append1 [of sep]) simp_all
    ultimately show ?thesis using Cons.IH by simp
  next
    case False
    then have sp: "split sep cs = [cs]" by (rule split_no_sep)
    have tw: "takeWhile (\<lambda>c. c \<noteq> sep) (rev cs @ [x]) = rev cs @ takeWhile (\<lambda>c. c \<noteq> sep) [x]" for x
      using False by (intro takeWhile_append2) auto
    show ?thesis using sp by (cases "c = sep") (simp_all add: tw)
  qed
qed

lemma pop_split: "pop (split CHR ''/'' l) = Some (last_segment l)"
  by (simp add: pop_def split_nonempty last_split last_segment_def)

lemma last_segment_empty: "last_segment l = [] \<longleftrightarrow> l = [] \<or> last l = CHR ''/''"
proof (cases l rule: rev_cases)
  case Nil
  then show ?thesis by (simp add: last_segment_def)
next
  case (snoc ys y)
  then show ?thesis by (simp add: last_segment_def)
qed

lemma location_id_falsy:
  "\<not> truthy (location_id res) \<longleftrightarrow>
     location res = None \<or> (\<exists>l. location res = Some l \<and> last_segment l = [])"
  by (cases "location res") (simp_all add: location_id_def pop_split)


lemma assign_throws_no_id:
  assumes "truthy (accessToken w)"
    and "server env (length (requests w)) (CreateProductMedia p m) = Inr res"
    and "ok res" and "\<not> truthy (location_id res)"
  shows "assignMediaToProduct env p m w =
     (Inl (Error ''Failed to get product-media ID from response''),
      w\<lparr>requests := requests w @ [CreateProductMedia p m]\<rparr>)"
  using assms
  by (simp add: assignMediaToProduct_def await_apply headers_apply fetch_apply getHeaders_truthy
      throw_def Let_def)

lemma assign_requests:
  assumes "assignMediaToProduct env p m w = (r, w')"
  shows "requests w' = requests w
       \<or> requests w' = requests w @ [CreateProductMedia p m]
       \<or> (\<exists>res l. server env (length (requests w)) (CreateProductMedia p m) = Inr res \<and> ok res
             \<and> location res = Some l \<and> last_segment l \<noteq> []
             \<and> requests w' = requests w @ [CreateProductMedia p m, PatchProduct p (last_segment l)])"
proof (cases "truthy (accessToken w)")
  case False
  with assms show ?thesis
    by (simp add: assignMediaToProduct_def await_apply headers_apply getHeaders_falsy)
next
  case tok: True
  show ?thesis
  proof (cases "server env (length (requests w)) (CreateProductMedia p m)")
    case (Inl e)
    with assms tok show ?thesis
      by (auto simp add: assignMediaToProduct_def await_apply headers_apply fetch_apply getHeaders_truthy)
  next
    case (Inr res)
    show ?thesis
    proof (cases "ok res \<and> truthy (location_id res)")
      case False
      with assms tok Inr show ?thesis
        by (auto simp add: assignMediaToProduct_def await_apply headers_apply fetch_apply
            getHeaders_truthy throw_def Let_def if_apply split: if_splits)
    next
      case True
      then obtain l where l: "location res = Some l" "last_segment l \<noteq> []" "location_id res = Some (last_segment l)"
        by (cases "location res") (auto simp add: location_id_def pop_split)
      have "requests w' = requests w @ [CreateProductMedia p m, PatchProduct p (last_segment l)]"
        using assms tok Inr True l
        by (auto simp add: assignMediaToProduct_def await_apply headers_apply fetch_apply
            getHeaders_truthy throw_def ret_def Let_def if_apply split: sum.splits if_splits)
      with Inr True l show ?thesis by blast
    qed
  qed
qed


text \<open>
  C9. When the association response has no \<open>location\<close> header, or one whose last path segment
  is empty, \<open>assignMediaToProduct\<close> throws with the association request as the only request
  sent. And whenever it sends a cover patch, the patch is for its own product and carries the
  non-empty last path segment of the \<open>location\<close> header of a successful association response.
\<close>

theorem assignMediaToProduct_cover_id:
  assumes "assignMediaToProduct env p m w = (r, w')"
  shows "(truthy (accessToken w) \<and> server env (length (requests w)) (CreateProductMedia p m) = Inr res
            \<and> ok res \<and> (location res = None \<or> (\<exists>l. location res = Some l \<and> last_segment l = []))
          \<longrightarrow> r = Inl (Error ''Failed to get product-media ID from response'')
              \<and> requests w' = requests w @ [CreateProductMedia p m])
       \<and> (\<forall>p' c. PatchProduct p' c \<in> set (drop (length (requests w)) (requests w')) \<longrightarrow>
             p' = p \<and> (\<exists>res l. server env (length (requests w)) (CreateProductMedia p m) = Inr res
                          \<and> ok res \<and> location res = Some l \<and> c = last_segment l \<and> c \<noteq> []))"
proof (intro conjI impI allI)
  assume h: "truthy (accessToken w) \<and> server env (length (requests w)) (CreateProductMedia p m) = Inr res
            \<and> ok res \<and> (location res = None \<or> (\<exists>l. location res = Some l \<and> last_segment l = []))"
  then have "\<not> truthy (location_id res)" by (simp add: location_id_falsy)
  with h assign_throws_no_id [of w env p m res] assms
  show "r = Inl (Error ''Failed to get product-media ID from response'')"
    and "requests w' = requests w @ [CreateProductMedia p m]"
    by auto
next
  fix p' c
  assume "PatchProduct p' c \<in> set (drop (length (requests w)) (requests w'))"
  with assign_requests [OF assms]
  show "p' = p" by auto
next
  fix p' c
  assume "PatchProduct p' c \<in> set (drop (length (requests w)) (requests w'))"
  with assign_requests [OF assms]
  show "\<exists>res l. server env (length (requests w)) (CreateProductMedia p m) = Inr res
                          \<and> ok res \<and> location res = Some l \<and> c = last_segment l \<and> c \<noteq> []"
    by auto
qed

theorem assignMediaToProduct_cover_id_witness:
  "(truthy (accessToken world0)
      \<and> server (env_of always_ok (answers_of [])) (length (requests world0))
            (CreateProductMedia ''p'' ''m'') = Inr response_ok
      \<and> ok response_ok \<and> location response_ok = None)
   \<and> assignMediaToProduct (env_of always_ok (answers_of [])) ''p'' ''m'' world0 =
       (Inl (Error ''Failed to get product-media ID from response''),
        world0\<lparr>requests := [CreateProductMedia ''p'' ''m'']\<rparr>)
   \<and> assignMediaToProduct (env_of (shop_server []) (answers_of [])) ''p'' ''m'' world0 =
       (Inr (), world0\<lparr>requests := [CreateProductMedia ''p'' ''m'', PatchProduct ''p'' ''pm-p'']\<rparr>)
   \<and> PatchProduct ''p'' ''pm-p'' \<in> set (drop (length (requests world0))
         [CreateProductMedia ''p'' ''m'', PatchProduct ''p'' ''pm-p''])
   \<and> (\<exists>res l. server (env_of (shop_server []) (answers_of [])) (length (requests world0))
           (CreateProductMedia ''p'' ''m'') = Inr res
         \<and> ok res \<and> location res = Some l \<and> ''pm-p'' = last_segment l \<and> ''pm-p'' \<noteq> [])"
proof -
  let ?A = "env_of always_ok (answers_of [])"
  let ?B = "env_of (shop_server []) (answers_of [])"
  have hA: "truthy (accessToken world0)
      \<and> server ?A (length (requests world0)) (CreateProductMedia ''p'' ''m'') = Inr response_ok
      \<and> ok response_ok \<and> location response_ok = None"
    by (simp add: world0_def env_of_def always_ok_def response_ok_def)
  obtain r w' where eA: "assignMediaToProduct ?A ''p'' ''m'' world0 = (r, w')"
    by (cases "assignMediaToProduct ?A ''p'' ''m'' world0")
  from assignMediaToProduct_cover_id [OF eA, of response_ok] hA
  have "r = Inl (Error ''Failed to get product-media ID from response'')"
    and "requests w' = requests world0 @ [CreateProductMedia ''p'' ''m'']"
    by blast+
  have vA: "assignMediaToProduct ?A ''p'' ''m'' world0 =
       (Inl (Error ''Failed to get product-media ID from response''),
        world0\<lparr>requests := [CreateProductMedia ''p'' ''m'']\<rparr>)"
    by (simp add: assignMediaToProduct_def await_def headers_def getHeaders_def fetch_def
        throw_def location_id_def world0_def env_of_def always_ok_def response_ok_def)
  have vB: "assignMediaToProduct ?B ''p'' ''m'' world0 =
       (Inr (), world0\<lparr>requests := [CreateProductMedia ''p'' ''m'', PatchProduct ''p'' ''pm-p'']\<rparr>)"
    by (simp add: assignMediaToProduct_def await_def headers_def getHeaders_def fetch_def
        throw_def ret_def location_id_def pop_def world0_def env_of_def shop_server_def response_ok_def)
  have mem: "PatchProduct ''p'' ''pm-p'' \<in> set (drop (length (requests world0))
         (requests (world0\<lparr>requests := [CreateProductMedia ''p'' ''m'', PatchProduct ''p'' ''pm-p'']\<rparr>)))"
    by (simp add: world0_def)
  from assignMediaToProduct_cover_id [OF vB, of response_ok] mem
  have "\<exists>res l. server ?B (length (requests world0)) (CreateProductMedia ''p'' ''m'') = Inr res
         \<and> ok res \<and> location res = Some l \<and> ''pm-p'' = last_segment l \<and> ''pm-p'' \<noteq> []"
    by blast
  with hA vA vB show ?thesis by (simp add: world0_def)
qed

subsection \<open>Pagination\<close>

lemma pages_break: "T \<le> p * limit \<Longrightarrow> p = 1 \<or> (p - 1) * limit < T \<Longrightarrow> pages_needed T = p"
  unfolding pages_needed_def limit_def by (cases p) auto

lemma pages_continue: "p * limit < T \<Longrightarrow> p < pages_needed T"
  unfolding pages_needed_def limit_def by auto

lemma loop_step:
  assumes "serves env ch items" "truthy (accessToken w)"
  shows "fetchAllProducts_loop env ch page acc w =
     (let d = take limit (drop ((page - 1) * limit) items);
          w1 = w\<lparr>requests := requests w @ [SearchProduct limit page ch [''cover'']]\<rparr> in
      if length items \<le> length (acc @ d) \<or> length d < limit then Some (Inr (acc @ d), w1)
      else fetchAllProducts_loop env ch (page + 1) (acc @ d) w1)"
proof -
  from assms(1) obtain res where
    "server env (length (requests w)) (SearchProduct limit page ch [''cover'']) = Inr res"
    "ok res" "json_total res = int (length items)"
    "json_data res = take limit (drop ((page - 1) * limit) items)"
    unfolding serves_def by blast
  with assms(2) show ?thesis
    by (subst fetchAllProducts_loop.simps) (simp add: getHeaders_truthy fetch_apply Let_def)
qed

lemma loop_total:
  assumes "serves env ch items" "truthy (accessToken w)"
    and "acc = take ((page - 1) * limit) items"
    and "page = 1 \<or> (page - 1) * limit < length items"
    and "1 \<le> page"
  shows "fetchAllProducts_loop env ch page acc w =
      Some (Inr items, w\<lparr>requests := requests w @ search_pages ch page (pages_needed (length items))\<rparr>)"
  using assms
proof (induction "length items - (page - 1) * limit" arbitrary: page acc w rule: less_induct)
  case less
  let ?d = "take limit (drop ((page - 1) * limit) items)"
  let ?w1 = "w\<lparr>requests := requests w @ [SearchProduct limit page ch [''cover'']]\<rparr>"
  have pl: "(page - 1) * limit + limit = page * limit"
    using less.prems(5) by (cases page) simp_all
  have acc1: "acc @ ?d = take (page * limit) items"
    using pl less.prems(3) take_add [of "(page - 1) * limit" limit items] by simp
  have step: "fetchAllProducts_loop env ch page acc w =
     (if length items \<le> length (acc @ ?d) \<or> length ?d < limit then Some (Inr (acc @ ?d), ?w1)
      else fetchAllProducts_loop env ch (page + 1) (acc @ ?d) ?w1)"
    using loop_step [OF less.prems(1,2), of page acc] by (simp add: Let_def)
  show ?case
  proof (cases "length items \<le> page * limit")
    case True
    then have all: "acc @ ?d = items" using acc1 by simp
    have n: "pages_needed (length items) = page"
      using pages_break [OF True less.prems(4)] .
    have cond: "length items \<le> length (acc @ ?d) \<or> length ?d < limit"
      by (simp only: all) simp
    have stop: "fetchAllProducts_loop env ch page acc w = Some (Inr (acc @ ?d), ?w1)"
      by (rule trans [OF step]) (rule if_P [OF cond])
    have "search_pages ch page page = [SearchProduct limit page ch [''cover'']]"
      by (simp add: search_pages_def)
    then show ?thesis by (simp only: stop all n)
  next
    case False
    then have lt: "page * limit < length items" by simp
    have len1: "length (acc @ ?d) = page * limit"
      using acc1 lt by simp
    have lend: "length ?d = limit"
      using pl lt by simp
    have ncond: "\<not> (length items \<le> length (acc @ ?d) \<or> length ?d < limit)"
      using lt by (simp only: len1 lend) simp
    have cont: "fetchAllProducts_loop env ch page acc w =
        fetchAllProducts_loop env ch (page + 1) (acc @ ?d) ?w1"
      by (rule trans [OF step]) (rule if_not_P [OF ncond])
    have dec: "length items - (page + 1 - 1) * limit < length items - (page - 1) * limit"
    proof -
      have lpos: "0 < limit" by (simp add: limit_def)
      have e: "page + 1 - 1 = page" by simp
      show ?thesis unfolding e using pl lt lpos by linarith
    qed
    have ih: "fetchAllProducts_loop env ch (page + 1) (acc @ ?d) ?w1 =
        Some (Inr items, ?w1\<lparr>requests := requests ?w1 @ search_pages ch (page + 1) (pages_needed (length items))\<rparr>)"
      by (rule less.hyps [OF dec less.prems(1)]) (use less.prems(2) acc1 lt in simp_all)
    have "page < pages_needed (length items)" using pages_continue [OF lt] .
    then have "search_pages ch page (pages_needed (length items)) =
        SearchProduct limit page ch [''cover''] # search_pages ch (page + 1) (pages_needed (length items))"
      by (simp add: search_pages_def upt_conv_Cons)
    with cont ih show ?thesis by simp
  qed
qed

lemma length_search_pages: "length (search_pages ch (Suc 0) n) = n"
  by (simp add: search_pages_def)

text \<open>
  C1, as the code has it. Against a catalogue of \<open>T\<close> items that answers every page with the
  total \<open>T\<close> and the slice asked for, \<open>fetchAllProducts\<close> returns: it accumulates exactly the
  \<open>T\<close> items, and it has sent the requests for the pages 1 to \<open>max 1 (ceil (T / 25))\<close> and no
  other, so one request when the catalogue is empty.
\<close>

theorem fetchAllProducts_complete:
  assumes "serves env channel items" and "truthy (accessToken w)"
  shows "fetchAllProducts env channel w =
      Some (Inr \<lparr>total = length items,
                 withoutImages = filter (\<lambda>p. \<not> truthy (coverId p)) items\<rparr>,
            w\<lparr>requests := requests w @
                 search_pages channel 1 (max 1 ((length items + 24) div 25))\<rparr>)
     \<and> length (search_pages channel 1 (max 1 ((length items + 24) div 25)))
         = max 1 ((length items + 24) div 25)"
proof -
  have "fetchAllProducts_loop env channel 1 [] w =
      Some (Inr items, w\<lparr>requests := requests w @ search_pages channel 1 (pages_needed (length items))\<rparr>)"
    by (rule loop_total [OF assms]) simp_all
  moreover have "pages_needed (length items) = max 1 ((length items + 24) div 25)"
    by (simp add: pages_needed_def limit_def)
  ultimately show ?thesis
    by (simp add: fetchAllProducts_def length_search_pages)
qed


theorem fetchAllProducts_complete_witness:
  "serves (env_of (shop_server (replicate 26 (product_of ''a'' None))) (answers_of [])) ''channel''
      (replicate 26 (product_of ''a'' None))
   \<and> truthy (accessToken world0)
   \<and> fetchAllProducts (env_of (shop_server (replicate 26 (product_of ''a'' None))) (answers_of []))
        ''channel'' world0 =
      Some (Inr \<lparr>total = 26, withoutImages = replicate 26 (product_of ''a'' None)\<rparr>,
            world0\<lparr>requests := [SearchProduct 25 1 ''channel'' [''cover''],
                                  SearchProduct 25 2 ''channel'' [''cover'']]\<rparr>)"
proof -
  let ?items = "replicate 26 (product_of ''a'' None)"
  let ?E = "env_of (shop_server ?items) (answers_of [])"
  have s: "serves ?E ''channel'' ?items"
    by (simp add: serves_def env_of_def shop_server_def catalog_page_def response_ok_def)
  have t: "truthy (accessToken world0)"
    by (simp add: world0_def)
  have n: "search_pages ''channel'' 1 (max 1 ((length ?items + 24) div 25)) =
      [SearchProduct 25 1 ''channel'' [''cover''], SearchProduct 25 2 ''channel'' [''cover'']]"
    by (simp add: search_pages_def limit_def upt_conv_Cons)
  have c: "\<not> truthy (coverId (product_of ''a'' None))"
    by (simp add: product_of_def)
  from fetchAllProducts_complete [OF s t] s t show ?thesis
    by (simp only: n) (simp add: c world0_def)
qed

text \<open>
  C1 as it is stated fails for \<open>T = 0\<close>: the loop fetches before it tests, so the empty
  catalogue costs one page fetch, and \<open>ceil (0 / 25)\<close> is zero.
\<close>

theorem fetchAllProducts_empty_counterexample:
  "serves (env_of (shop_server []) (answers_of [])) ''channel'' []
   \<and> fetchAllProducts (env_of (shop_server []) (answers_of [])) ''channel'' world0 =
      Some (Inr \<lparr>total = 0, withoutImages = []\<rparr>,
            world0\<lparr>requests := [SearchProduct 25 1 ''channel'' [''cover'']]\<rparr>)
   \<and> length [SearchProduct 25 1 ''channel'' [''cover'']] \<noteq> (0 + 24) div 25"
  by (simp add: serves_def fetchAllProducts_def fetchAllProducts_loop.simps getHeaders_def fetch_def
      env_of_def shop_server_def catalog_page_def response_ok_def world0_def limit_def)

subsection \<open>The items without a cover\<close>

lemma page_items_append:
  "page_items env k (xs @ ys) = page_items env k xs @ page_items env (k + length xs) ys"
  by (induction xs arbitrary: k) simp_all

lemma loop_accumulates:
  assumes "fetchAllProducts_loop env ch page acc w = Some y"
  shows "case y of
           (Inl e, w') \<Rightarrow> True
         | (Inr allProducts, w') \<Rightarrow>
             \<exists>reqs. requests w' = requests w @ reqs
               \<and> allProducts = acc @ page_items env (length (requests w)) reqs"
  using assms
proof (induction rule: fetchAllProducts_loop.raw_induct [rotated, consumes 1, case_names step])
  case (step f env ch page acc w y)
  let ?req = "SearchProduct limit page ch [''cover'']"
  let ?w1 = "w\<lparr>requests := requests w @ [?req]\<rparr>"
  note body = step.hyps
  show ?case
  proof (cases "getHeaders w")
    case (Inl e)
    with body show ?thesis by auto
  next
    case (Inr hs)
    show ?thesis
    proof (cases "server env (length (requests w)) ?req")
      case (Inl e)
      with body Inr show ?thesis by (auto simp add: fetch_apply)
    next
      case res: (Inr res)
      show ?thesis
      proof (cases "ok res")
        case False
        with body Inr res show ?thesis by (auto simp add: fetch_apply)
      next
        case True
        show ?thesis
        proof (cases "json_total res \<le> int (length (acc @ json_data res)) \<or> length (json_data res) < limit")
          case stop: True
          with body Inr res True have "y = (Inr (acc @ json_data res), ?w1)"
            by (simp add: fetch_apply Let_def)
          moreover have "page_items env (length (requests w)) [?req] = json_data res"
            using res by simp
          ultimately show ?thesis by auto
        next
          case go: False
          with body Inr res True have "f env ch (page + 1) (acc @ json_data res) ?w1 = Some y"
            by (simp add: fetch_apply Let_def)
          from step.IH [OF this] show ?thesis
          proof (cases y)
            case (Pair r w')
            show ?thesis
            proof (cases r)
              case (Inl e)
              with Pair show ?thesis by simp
            next
              case (Inr allProducts)
              with Pair \<open>case y of (Inl e, w') \<Rightarrow> True | (Inr allProducts, w') \<Rightarrow> _ allProducts w'\<close>
              obtain reqs where "requests w' = requests ?w1 @ reqs"
                "allProducts = (acc @ json_data res) @ page_items env (length (requests ?w1)) reqs"
                by auto
              then have "requests w' = requests w @ (?req # reqs)"
                "allProducts = acc @ page_items env (length (requests w)) (?req # reqs)"
                using res by simp_all
              then have "\<exists>rs. requests w' = requests w @ rs
                  \<and> allProducts = acc @ page_items env (length (requests w)) rs"
                by blast
              with Pair Inr show ?thesis by simp
            qed
          qed
        qed
      qed
    qed
  qed
qed


lemma falsy_iff: "\<not> truthy x \<longleftrightarrow> x = None \<or> x = Some []"
  by (cases x) simp_all

text \<open>
  C5, as the code has it. The items returned as lacking an image are exactly the accumulated
  items whose cover reference is \<open>null\<close> or the empty string (the falsy ones), in order; none
  of them has a non-empty cover reference; and \<open>total\<close> counts all the accumulated items.
\<close>

theorem withoutImages_falsy_cover:
  assumes "fetchAllProducts env channel w = Some (Inr listing, w')"
  shows "withoutImages listing =
           filter (\<lambda>p. coverId p = None \<or> coverId p = Some []) (accumulated env w w')
       \<and> total listing = length (accumulated env w w')
       \<and> (\<forall>p \<in> set (withoutImages listing). coverId p = None \<or> coverId p = Some [])"
proof -
  from assms obtain allProducts where
    loop: "fetchAllProducts_loop env channel 1 [] w = Some (Inr allProducts, w')"
    and l: "listing = \<lparr>total = length allProducts,
              withoutImages = filter (\<lambda>p. \<not> truthy (coverId p)) allProducts\<rparr>"
    by (auto simp add: fetchAllProducts_def split: option.splits sum.splits prod.splits)
  from loop_accumulates [OF loop] obtain reqs where
    "requests w' = requests w @ reqs" "allProducts = page_items env (length (requests w)) reqs"
    by auto
  then have "allProducts = accumulated env w w'"
    by (simp add: accumulated_def)
  with l show ?thesis by (simp add: falsy_iff)
qed

theorem withoutImages_falsy_cover_witness:
  "fetchAllProducts
      (env_of (shop_server [product_of ''a'' None, product_of ''x'' (Some ''cover-x''),
                            product_of ''b'' (Some [])]) (answers_of [])) ''channel'' world0 =
     Some (Inr \<lparr>total = 3, withoutImages = [product_of ''a'' None, product_of ''b'' (Some [])]\<rparr>,
           world0\<lparr>requests := [SearchProduct 25 1 ''channel'' [''cover'']]\<rparr>)
   \<and> [product_of ''a'' None, product_of ''b'' (Some [])] =
       filter (\<lambda>p. coverId p = None \<or> coverId p = Some [])
         (accumulated
            (env_of (shop_server [product_of ''a'' None, product_of ''x'' (Some ''cover-x''),
                                  product_of ''b'' (Some [])]) (answers_of []))
            world0 (world0\<lparr>requests := [SearchProduct 25 1 ''channel'' [''cover'']]\<rparr>))
   \<and> coverId (product_of ''a'' None) = None
   \<and> coverId (product_of ''b'' (Some [])) = Some []"
proof -
  let ?E = "env_of (shop_server [product_of ''a'' None, product_of ''x'' (Some ''cover-x''),
                            product_of ''b'' (Some [])]) (answers_of [])"
  have v: "fetchAllProducts ?E ''channel'' world0 =
     Some (Inr \<lparr>total = 3, withoutImages = [product_of ''a'' None, product_of ''b'' (Some [])]\<rparr>,
           world0\<lparr>requests := [SearchProduct 25 1 ''channel'' [''cover'']]\<rparr>)"
    by (simp add: fetchAllProducts_def fetchAllProducts_loop.simps getHeaders_def fetch_def
        env_of_def shop_server_def catalog_page_def response_ok_def world0_def limit_def
        product_of_def)
  from withoutImages_falsy_cover [OF v] v show ?thesis by (simp add: product_of_def)
qed

text \<open>
  C5 as it is stated fails for a cover reference that is the empty string: it is not
  \<open>null\<close>, and the item is returned as lacking an image.
\<close>

theorem withoutImages_empty_cover_counterexample:
  "fetchAllProducts (env_of (shop_server [product_of ''b'' (Some [])]) (answers_of []))
      ''channel'' world0 =
     Some (Inr \<lparr>total = 1, withoutImages = [product_of ''b'' (Some [])]\<rparr>,
           world0\<lparr>requests := [SearchProduct 25 1 ''channel'' [''cover'']]\<rparr>)
   \<and> coverId (product_of ''b'' (Some [])) \<noteq> None"
  by (simp add: fetchAllProducts_def fetchAllProducts_loop.simps getHeaders_def fetch_def
      env_of_def shop_server_def catalog_page_def response_ok_def world0_def limit_def
      product_of_def)

subsection \<open>The two listing loops\<close>

lemma sim_sym: "sim w w' \<Longrightarrow> sim w' w"
  by (simp add: sim_def)

lemma sim_fetch:
  assumes "same_pages env ch" "sim w w'"
  shows "fst (fetch env (SearchProduct limit page ch [''cover'', ''media'']) w)
       = fst (fetch env (SearchProduct limit page ch [''cover'']) w')"
    and "sim (snd (fetch env (SearchProduct limit page ch [''cover'', ''media'']) w))
             (snd (fetch env (SearchProduct limit page ch [''cover'']) w'))"
  using assms by (simp_all add: fetch_def sim_def same_pages_def)

lemma sim_headers: "sim w w' \<Longrightarrow> getHeaders w = getHeaders w'"
  by (simp add: sim_def getHeaders_def)

lemma without_to_all:
  assumes "fetchProductsWithoutImages_loop env ch page acc w = Some y"
    and "same_pages env ch" "sim w w'"
  shows "\<exists>v'. fetchAllProducts_loop env ch page acc w' = Some (fst y, v') \<and> sim (snd y) v'"
  using assms
proof (induction arbitrary: w' rule: fetchProductsWithoutImages_loop.raw_induct [rotated, consumes 1, case_names step])
  case (step f env ch page acc w y w')
  let ?A = "SearchProduct limit page ch [''cover'', ''media'']"
  let ?B = "SearchProduct limit page ch [''cover'']"
  note body = step.hyps
  note same = step.prems(1) and sim = step.prems(2)
  have hd: "getHeaders w' = getHeaders w" using sim_headers [OF sim] by (rule sym)
  obtain r w1 where fa: "fetch env ?A w = (r, w1)" by (cases "fetch env ?A w")
  obtain r' w1' where fb: "fetch env ?B w' = (r', w1')" by (cases "fetch env ?B w'")
  have rr: "r' = r" and sim1: "sim w1 w1'"
    using sim_fetch [OF same sim, of page] fa fb by simp_all
  show ?case
  proof (cases "getHeaders w")
    case (Inl e)
    with body have "y = (Inl e, w)" by simp
    with Inl hd sim show ?thesis
      by (subst fetchAllProducts_loop.simps) simp
  next
    case (Inr h)
    show ?thesis
    proof (cases r)
      case (Inl e)
      with body Inr fa have "y = (Inl e, w1)" by simp
      with Inl Inr hd fb rr sim1 show ?thesis
        by (subst fetchAllProducts_loop.simps) simp
    next
      case res: (Inr res)
      show ?thesis
      proof (cases "ok res")
        case False
        with body Inr fa res have "y = (Inl (failure ''Failed to fetch products'' res), w1)" by simp
        with False res Inr hd fb rr sim1 show ?thesis
          by (subst fetchAllProducts_loop.simps) simp
      next
        case True
        show ?thesis
        proof (cases "json_total res \<le> int (length (acc @ json_data res)) \<or> length (json_data res) < limit")
          case stop: True
          with body Inr fa res True have "y = (Inr (acc @ json_data res), w1)"
            by (simp add: Let_def)
          with stop True res Inr hd fb rr sim1 show ?thesis
            by (subst fetchAllProducts_loop.simps) (simp add: Let_def)
        next
          case go: False
          with body Inr fa res True have "f env ch (page + 1) (acc @ json_data res) w1 = Some y"
            by (simp add: Let_def)
          from step.IH [OF this same sim1] obtain v' where
            "fetchAllProducts_loop env ch (page + 1) (acc @ json_data res) w1' = Some (fst y, v')" "sim (snd y) v'"
            by blast
          with go True res Inr hd fb rr show ?thesis
            by (subst fetchAllProducts_loop.simps) (simp add: Let_def)
        qed
      qed
    qed
  qed
qed


lemma all_to_without:
  assumes "fetchAllProducts_loop env ch page acc w = Some y"
    and "same_pages env ch" "sim w w'"
  shows "\<exists>v'. fetchProductsWithoutImages_loop env ch page acc w' = Some (fst y, v') \<and> sim (snd y) v'"
  using assms
proof (induction arbitrary: w' rule: fetchAllProducts_loop.raw_induct [rotated, consumes 1, case_names step])
  case (step f env ch page acc w y w')
  let ?A = "SearchProduct limit page ch [''cover'']"
  let ?B = "SearchProduct limit page ch [''cover'', ''media'']"
  note body = step.hyps
  note same = step.prems(1) and sim = step.prems(2)
  have hd: "getHeaders w' = getHeaders w" using sim_headers [OF sim] by (rule sym)
  obtain r w1 where fa: "fetch env ?A w = (r, w1)" by (cases "fetch env ?A w")
  obtain r' w1' where fb: "fetch env ?B w' = (r', w1')" by (cases "fetch env ?B w'")
  have rr: "r' = r" and sim1: "sim w1 w1'"
    using sim_fetch [OF same sim_sym [OF sim], of page] fa fb by (simp_all add: sim_sym)
  show ?case
  proof (cases "getHeaders w")
    case (Inl e)
    with body have "y = (Inl e, w)" by simp
    with Inl hd sim show ?thesis
      by (subst fetchProductsWithoutImages_loop.simps) simp
  next
    case (Inr h)
    show ?thesis
    proof (cases r)
      case (Inl e)
      with body Inr fa have "y = (Inl e, w1)" by simp
      with Inl Inr hd fb rr sim1 show ?thesis
        by (subst fetchProductsWithoutImages_loop.simps) simp
    next
      case res: (Inr res)
      show ?thesis
      proof (cases "ok res")
        case False
        with body Inr fa res have "y = (Inl (failure ''Failed to fetch products'' res), w1)" by simp
        with False res Inr hd fb rr sim1 show ?thesis
          by (subst fetchProductsWithoutImages_loop.simps) simp
      next
        case True
        show ?thesis
        proof (cases "json_total res \<le> int (length (acc @ json_data res)) \<or> length (json_data res) < limit")
          case stop: True
          with body Inr fa res True have "y = (Inr (acc @ json_data res), w1)"
            by (simp add: Let_def)
          with stop True res Inr hd fb rr sim1 show ?thesis
            by (subst fetchProductsWithoutImages_loop.simps) (simp add: Let_def)
        next
          case go: False
          with body Inr fa res True have "f env ch (page + 1) (acc @ json_data res) w1 = Some y"
            by (simp add: Let_def)
          from step.IH [OF this same sim1] obtain v' where
            "fetchProductsWithoutImages_loop env ch (page + 1) (acc @ json_data res) w1' = Some (fst y, v')" "sim (snd y) v'"
            by blast
          with go True res Inr hd fb rr show ?thesis
            by (subst fetchProductsWithoutImages_loop.simps) (simp add: Let_def)
        qed
      qed
    qed
  qed
qed



lemma sim_refl: "sim w w"
  by (simp add: sim_def)

lemma loops_related:
  assumes "same_pages env ch"
  shows "rel_option (\<lambda>(r, v) (r', v'). r = r' \<and> length (requests v) = length (requests v'))
           (fetchProductsWithoutImages_loop env ch page acc w)
           (fetchAllProducts_loop env ch page acc w)"
proof (cases "fetchProductsWithoutImages_loop env ch page acc w")
  case None
  have "fetchAllProducts_loop env ch page acc w = None"
  proof (cases "fetchAllProducts_loop env ch page acc w")
    case (Some y)
    from all_to_without [OF Some assms sim_refl] None show ?thesis by simp
  qed simp
  with None show ?thesis by simp
next
  case (Some y)
  from without_to_all [OF Some assms sim_refl] obtain v' where
    "fetchAllProducts_loop env ch page acc w = Some (fst y, v')" "sim (snd y) v'" by blast
  with Some show ?thesis by (cases y) (simp add: sim_def)
qed

text \<open>
  C10. When the server answers the two kinds of search request alike, page by page,
  \<open>fetchProductsWithoutImages\<close> and \<open>fetchAllProducts\<close> behave alike: both run forever or
  both return, after as many page requests, with the same thrown error or with the same list
  of items without a cover.
\<close>

theorem fetchProductsWithoutImages_equivalent:
  assumes "same_pages env channel"
  shows "rel_option
           (\<lambda>(r, v) (r', v'). r = map_sum (\<lambda>e. e) withoutImages r'
               \<and> length (requests v) = length (requests v'))
           (fetchProductsWithoutImages env channel w)
           (fetchAllProducts env channel w)"
proof -
  note rel = loops_related [OF assms, of 1 "[]" w]
  show ?thesis
  proof (cases "fetchProductsWithoutImages_loop env channel 1 [] w")
    case None
    with rel have "fetchAllProducts_loop env channel 1 [] w = None" by simp
    with None show ?thesis
      by (simp add: fetchProductsWithoutImages_def fetchAllProducts_def)
  next
    case (Some y)
    with rel obtain y' where y': "fetchAllProducts_loop env channel 1 [] w = Some y'"
      and "fst y = fst y'" "length (requests (snd y)) = length (requests (snd y'))"
      by (cases "fetchAllProducts_loop env channel 1 [] w") (auto simp add: case_prod_beta)
    with Some show ?thesis
      by (cases y; cases y'; cases "fst y")
        (auto simp add: fetchProductsWithoutImages_def fetchAllProducts_def)
  qed
qed

theorem fetchProductsWithoutImages_equivalent_witness:
  "same_pages (env_of (shop_server [product_of ''a'' None, product_of ''x'' (Some ''cover-x'')])
        (answers_of [])) ''channel''
   \<and> rel_option
        (\<lambda>(r, v) (r', v'). r = map_sum (\<lambda>e. e) withoutImages r'
            \<and> length (requests v) = length (requests v'))
        (fetchProductsWithoutImages
           (env_of (shop_server [product_of ''a'' None, product_of ''x'' (Some ''cover-x'')])
              (answers_of [])) ''channel'' world0)
        (fetchAllProducts
           (env_of (shop_server [product_of ''a'' None, product_of ''x'' (Some ''cover-x'')])
              (answers_of [])) ''channel'' world0)
   \<and> fetchProductsWithoutImages
        (env_of (shop_server [product_of ''a'' None, product_of ''x'' (Some ''cover-x'')])
           (answers_of [])) ''channel'' world0 =
      Some (Inr [product_of ''a'' None],
            world0\<lparr>requests := [SearchProduct 25 1 ''channel'' [''cover'', ''media'']]\<rparr>)"
proof -
  let ?E = "env_of (shop_server [product_of ''a'' None, product_of ''x'' (Some ''cover-x'')]) (answers_of [])"
  have s: "same_pages ?E ''channel''"
    by (simp add: same_pages_def env_of_def shop_server_def)
  have v: "fetchProductsWithoutImages ?E ''channel'' world0 =
      Some (Inr [product_of ''a'' None],
            world0\<lparr>requests := [SearchProduct 25 1 ''channel'' [''cover'', ''media'']]\<rparr>)"
    by (simp add: fetchProductsWithoutImages_def fetchProductsWithoutImages_loop.simps
        getHeaders_def fetch_def env_of_def shop_server_def catalog_page_def response_ok_def
        world0_def limit_def product_of_def)
  from fetchProductsWithoutImages_equivalent [OF s, of world0] s v show ?thesis
    by (simp only: simp_thms)
qed

subsection \<open>One item\<close>

lemma process_item_caught:
  "process_item env t batch p w = caught p (try_block env t batch p w)"
  by (simp add: process_item_def caught_def failed_result_def split: prod.splits sum.splits)

lemma try_block_cases:
  "try_block env t batch p w =
     (case choose_image env t batch p w of
        (Inl err, w1) \<Rightarrow> (Inl err, w1)
      | (Inr (Inl control), w1) \<Rightarrow> (Inr control, w1)
      | (Inr (Inr imageBuffer), w1) \<Rightarrow> upload env p imageBuffer w1)"
  by (simp add: try_block_def await_apply ret_def split: prod.splits sum.splits)

lemma uploadMedia_upload_fails:
  assumes "truthy (accessToken w)"
    and "uuid env w = (mediaId, w0)"
    and "server env (length (requests w)) (CreateMedia mediaId) = Inr createRes" "ok createRes"
    and "server env (Suc (length (requests w))) (UploadMedia mediaId file buf) = Inr uploadRes"
    and "\<not> ok uploadRes"
  shows "uploadMedia env buf file w =
     (Inl (failure ''Failed to upload media file'' uploadRes),
      w0\<lparr>requests := requests w @ [CreateMedia mediaId, UploadMedia mediaId file buf]\<rparr>)"
  using assms
  by (auto simp add: uploadMedia_def uuid_def await_apply headers_apply fetch_apply getHeaders_truthy
      throw_def if_apply)

lemma uploadMedia_results: "uploadMedia env buf file w = (r, w') \<Longrightarrow> results w' = results w"
  by (auto simp add: uploadMedia_def uuid_def await_apply headers_apply fetch_apply
      throw_def ret_def if_apply split: sum.splits if_splits)

lemma assign_results: "assignMediaToProduct env p m w = (r, w') \<Longrightarrow> results w' = results w"
  by (auto simp add: assignMediaToProduct_def await_apply headers_apply fetch_apply
      throw_def ret_def if_apply Let_def split: sum.splits if_splits)

lemma upload_cases:
  "upload env p buf w =
     (case uploadMedia env buf (''ai-product-'' @ product_id p) w of
        (Inl err, w1) \<Rightarrow> (Inl err, w1)
      | (Inr mediaId, w1) \<Rightarrow>
          (case assignMediaToProduct env (product_id p) mediaId w1 of
             (Inl err, w2) \<Rightarrow> (Inl err, w2)
           | (Inr u, w2) \<Rightarrow> (Inr Continue, w2\<lparr>results := results w2 @ [result_of p uploaded]\<rparr>)))"
  by (simp add: upload_def await_apply push_def ret_def result_of_def split: prod.splits sum.splits)

lemma upload_results:
  assumes "upload env p buf w = (r, w')"
  shows "(\<exists>err. r = Inl err \<and> results w' = results w)
       \<or> (r = Inr Continue \<and> results w' = results w @ [result_of p uploaded])"
  using assms uploadMedia_results assign_results
  by (auto simp add: upload_cases split: prod.splits sum.splits) 

lemma generate_results: "generate env t n d w = (r, w') \<Longrightarrow> results w' = results w"
  by (auto simp add: generate_def Let_def split: sum.splits if_splits)

lemma regenerate_results:
  assumes "regenerate env t p w = (r, w')"
  shows "(case r of
            Inl err \<Rightarrow> results w' = results w
          | Inr (Inl control) \<Rightarrow> control = Continue \<and> results w' = results w @ [result_of p skipped]
          | Inr (Inr buf) \<Rightarrow> results w' = results w)"
  using assms
  by (auto simp add: regenerate_def skip_def push_def writeFileSync_def ask_def generate_def
      await_apply ret_def if_apply Let_def result_of_def split: sum.splits if_splits)

lemma choose_image_results:
  assumes "choose_image env t batch p w = (r, w')"
  shows "(case r of
            Inl err \<Rightarrow> results w' = results w
          | Inr (Inl Break) \<Rightarrow> \<not> batch \<and> answers env (length (questions w)) = ''q'' \<and> results w' = results w
          | Inr (Inl Continue) \<Rightarrow> \<not> batch \<and> results w' = results w @ [result_of p skipped]
          | Inr (Inr buf) \<Rightarrow> results w' = results w)"
  using assms
  by (auto simp add: choose_image_def regenerate_def skip_def push_def writeFileSync_def ask_def generate_def
      await_apply ret_def if_apply Let_def result_of_def split: sum.splits if_splits option.splits)

subsection \<open>A failed upload\<close>

text \<open>
  C2. When the media entity is created and the upload of the bytes gets a non-success
  response, \<open>uploadMedia\<close> throws the error of the upload step, with the status and the body
  of that response; the two requests of steps 1 and 2 are all it has sent. In \<open>main\<close> the
  item then ends as \<open>failed\<close> with that message, and the world holds no further request: no
  association, no cover patch and nothing that undoes the media entity.
\<close>

theorem upload_failure_aborts:
  assumes "truthy (accessToken w)"
    and "uuid env w = (mediaId, w0)"
    and "server env (length (requests w)) (CreateMedia mediaId) = Inr createRes"
    and "ok createRes"
    and "server env (Suc (length (requests w)))
           (UploadMedia mediaId (''ai-product-'' @ product_id p) buf) = Inr uploadRes"
    and "\<not> ok uploadRes"
  shows "uploadMedia env buf (''ai-product-'' @ product_id p) w =
           (Inl (Error (''Failed to upload media file ('' @ show_nat (http_status uploadRes)
                          @ ''): '' @ body uploadRes)),
            w0\<lparr>requests := requests w @
                 [CreateMedia mediaId, UploadMedia mediaId (''ai-product-'' @ product_id p) buf]\<rparr>)
       \<and> (choose_image env t batch p v = (Inr (Inr buf), w) \<longrightarrow>
            process_item env t batch p v =
              (Continue,
               w0\<lparr>requests := requests w @
                    [CreateMedia mediaId, UploadMedia mediaId (''ai-product-'' @ product_id p) buf],
                  results := results w @
                    [\<lparr>productId = product_id p, productName = display_name p, status = failed,
                      error = Some (''Failed to upload media file ('' @ show_nat (http_status uploadRes)
                                      @ ''): '' @ body uploadRes)\<rparr>]\<rparr>))"
proof -
  have w0: "w0 = w\<lparr>uuids := Suc (uuids w)\<rparr>"
    using assms(2) by (auto simp add: uuid_def)
  have um: "uploadMedia env buf (''ai-product-'' @ product_id p) w =
     (Inl (failure ''Failed to upload media file'' uploadRes),
      w0\<lparr>requests := requests w @
           [CreateMedia mediaId, UploadMedia mediaId (''ai-product-'' @ product_id p) buf]\<rparr>)"
    by (rule uploadMedia_upload_fails [OF assms])
  then show ?thesis
    by (simp add: process_item_caught try_block_cases upload_cases caught_def failed_result_def
        failure_def w0)
qed

theorem upload_failure_aborts_witness:
  "truthy (accessToken cached)
   \<and> uuid (env_of upload_down (answers_of [])) cached = (''0a0'', cached\<lparr>uuids := 1\<rparr>)
   \<and> server (env_of upload_down (answers_of [])) (length (requests cached)) (CreateMedia ''0a0'')
        = Inr response_ok
   \<and> ok response_ok
   \<and> server (env_of upload_down (answers_of [])) (Suc (length (requests cached)))
        (UploadMedia ''0a0'' (''ai-product-'' @ product_id (product_of ''a'' None)) ''bytes'')
        = Inr response_error
   \<and> \<not> ok response_error
   \<and> choose_image (env_of upload_down (answers_of [])) ''T'' True (product_of ''a'' None) cached
        = (Inr (Inr ''bytes''), cached)
   \<and> process_item (env_of upload_down (answers_of [])) ''T'' True (product_of ''a'' None) cached =
        (Continue,
         cached\<lparr>uuids := 1,
           requests := [CreateMedia ''0a0'', UploadMedia ''0a0'' ''ai-product-a'' ''bytes''],
           results := [\<lparr>productId = ''a'', productName = ''Item a'', status = failed,
                        error = Some ''Failed to upload media file (500): down''\<rparr>]\<rparr>)"
proof -
  let ?E = "env_of upload_down (answers_of [])"
  let ?p = "product_of ''a'' None"
  have h1: "truthy (accessToken cached)"
    by (simp add: cached_def world0_def)
  have h2: "uuid ?E cached = (''0a0'', cached\<lparr>uuids := 1\<rparr>)"
    by (simp add: uuid_def env_of_def cached_def world0_def)
  have h3: "server ?E (length (requests cached)) (CreateMedia ''0a0'') = Inr response_ok"
    by (simp add: env_of_def upload_down_def shop_server_def)
  have h4: "ok response_ok"
    by (simp add: response_ok_def)
  have h5: "server ?E (Suc (length (requests cached)))
        (UploadMedia ''0a0'' (''ai-product-'' @ product_id ?p) ''bytes'') = Inr response_error"
    by (simp add: env_of_def upload_down_def)
  have h6: "\<not> ok response_error"
    by (simp add: response_error_def response_ok_def)
  have h7: "choose_image ?E ''T'' True ?p cached = (Inr (Inr ''bytes''), cached)"
    by (simp add: choose_image_def ret_def cached_def world0_def product_of_def)
  have n: "show_nat 500 = ''500''"
    by (simp add: show_nat.simps digit_def)
  from upload_failure_aborts [OF h1 h2 h3 h4 h5 h6, where t = "''T''" and batch = True and v = cached] h7
  have "process_item ?E ''T'' True ?p cached =
        (Continue,
         cached\<lparr>uuids := 1,
           requests := [CreateMedia ''0a0'', UploadMedia ''0a0'' ''ai-product-a'' ''bytes''],
           results := [\<lparr>productId = ''a'', productName = ''Item a'', status = failed,
                        error = Some ''Failed to upload media file (500): down''\<rparr>]\<rparr>)"
    by (simp add: n response_error_def response_ok_def product_of_def display_name_def
        cached_def world0_def)
  with h1 h2 h3 h4 h5 h6 h7 show ?thesis by (simp only: simp_thms)
qed

subsection \<open>The answers of the operator\<close>

lemma generate_questions: "generate env t n d w = (r, w') \<Longrightarrow> questions w' = questions w \<and> files w' = files w"
  by (auto simp add: generate_def Let_def split: sum.splits if_splits)

text \<open>
  C8. An item without a preview, the answer \<open>y\<close> to the question whether to generate, a
  generation that succeeds, and then any answer but \<open>y\<close> and \<open>r\<close> to the question
  ``Upload this image to Shopware? (y/n/r=regenerate)'', \<open>q\<close> among them: the item is
  recorded as \<open>skipped\<close>, nothing is uploaded, and the loop goes on with the next item.
\<close>

theorem upload_question_skips:
  assumes "files w (product_id p) = None"
    and "answers env (length (questions w)) = ''y''"
    and "generate env t (display_name p) (display_description p)
           (w\<lparr>questions := questions w @ [CHR 0x0A # ''  Generate image? (y/n/q=quit): '']\<rparr>)
         = (Inr imageBuffer, w1)"
    and "answers env (Suc (length (questions w))) = a"
    and "a \<noteq> ''y''" and "a \<noteq> ''r''"
  shows "process_item env t False p w =
           (Continue,
            w1\<lparr>files := (files w1)(product_id p \<mapsto> imageBuffer),
               questions := questions w1 @ [''  Upload this image to Shopware? (y/n/r=regenerate): ''],
               results := results w1 @ [result_of p skipped]\<rparr>)
       \<and> process_items env t False (p # rest) w =
           process_items env t False rest
             (w1\<lparr>files := (files w1)(product_id p \<mapsto> imageBuffer),
                questions := questions w1 @ [''  Upload this image to Shopware? (y/n/r=regenerate): ''],
                results := results w1 @ [result_of p skipped]\<rparr>)
       \<and> requests w1 = requests w"
proof -
  have q1: "questions w1 = questions w @ [CHR 0x0A # ''  Generate image? (y/n/q=quit): '']"
    using generate_questions [OF assms(3)] by simp
  have ch: "choose_image env t False p w =
      (Inr (Inl Continue),
       w1\<lparr>files := (files w1)(product_id p \<mapsto> imageBuffer),
          questions := questions w1 @ [''  Upload this image to Shopware? (y/n/r=regenerate): ''],
          results := results w1 @ [result_of p skipped]\<rparr>)"
    using assms q1
    by (simp add: choose_image_def await_apply ask_def ret_def writeFileSync_def skip_def push_def
        result_of_def if_apply)
  then have pi: "process_item env t False p w =
           (Continue,
            w1\<lparr>files := (files w1)(product_id p \<mapsto> imageBuffer),
               questions := questions w1 @ [''  Upload this image to Shopware? (y/n/r=regenerate): ''],
               results := results w1 @ [result_of p skipped]\<rparr>)"
    by (simp add: process_item_caught try_block_cases caught_def)
  have "requests w1 = requests w"
    using assms(3) by (auto simp add: generate_def Let_def split: sum.splits if_splits)
  with pi show ?thesis by simp
qed

theorem upload_question_skips_witness:
  "files world0 (product_id (product_of ''a'' None)) = None
   \<and> answers (env_of (shop_server []) (answers_of [''y'', ''q''])) (length (questions world0)) = ''y''
   \<and> answers (env_of (shop_server []) (answers_of [''y'', ''q''])) (Suc (length (questions world0))) = ''q''
   \<and> ''q'' \<noteq> ''y'' \<and> ''q'' \<noteq> ''r''
   \<and> process_items (env_of (shop_server []) (answers_of [''y'', ''q''])) ''T'' False
        [product_of ''a'' None, product_of ''b'' None] world0 =
       world0\<lparr>files := [''a'' \<mapsto> ''aW1hZ2U=''],
         prompts := [''T'' @ [CHR 0x0A, CHR 0x0A] @ ''Product name: Item a'' @ [CHR 0x0A]
                       @ ''Product description: Nice''],
         questions := [CHR 0x0A # ''  Generate image? (y/n/q=quit): '',
                       ''  Upload this image to Shopware? (y/n/r=regenerate): '',
                       CHR 0x0A # ''  Generate image? (y/n/q=quit): ''],
         results := [result_of (product_of ''a'' None) skipped,
                     result_of (product_of ''b'' None) skipped]\<rparr>"
proof -
  let ?E = "env_of (shop_server []) (answers_of [''y'', ''q''])"
  let ?p = "product_of ''a'' None"
  let ?w1 = "world0\<lparr>questions := [CHR 0x0A # ''  Generate image? (y/n/q=quit): ''],
      prompts := [''T'' @ [CHR 0x0A, CHR 0x0A] @ ''Product name: Item a'' @ [CHR 0x0A]
                       @ ''Product description: Nice'']\<rparr>"
  have h1: "files world0 (product_id ?p) = None"
    by (simp add: world0_def)
  have h2: "answers ?E (length (questions world0)) = ''y''"
    by (simp add: env_of_def answers_of_def world0_def)
  have h3: "generate ?E ''T'' (display_name ?p) (display_description ?p)
           (world0\<lparr>questions := questions world0 @ [CHR 0x0A # ''  Generate image? (y/n/q=quit): '']\<rparr>)
         = (Inr ''aW1hZ2U='', ?w1)"
    by (simp add: generate_def buildPrompt_def env_of_def world0_def product_of_def
        display_name_def display_description_def trim_def is_space_def)
  have h4: "answers ?E (Suc (length (questions world0))) = ''q''"
    by (simp add: env_of_def answers_of_def world0_def)
  have h5: "''q'' \<noteq> ''y''" and h6: "''q'' \<noteq> ''r''" by simp_all
  have next_item: "process_items ?E ''T'' False [product_of ''b'' None]
        (?w1\<lparr>files := (files ?w1)(product_id ?p \<mapsto> ''aW1hZ2U=''),
               questions := questions ?w1 @ [''  Upload this image to Shopware? (y/n/r=regenerate): ''],
               results := results ?w1 @ [result_of ?p skipped]\<rparr>) =
       world0\<lparr>files := [''a'' \<mapsto> ''aW1hZ2U=''],
         prompts := [''T'' @ [CHR 0x0A, CHR 0x0A] @ ''Product name: Item a'' @ [CHR 0x0A]
                       @ ''Product description: Nice''],
         questions := [CHR 0x0A # ''  Generate image? (y/n/q=quit): '',
                       ''  Upload this image to Shopware? (y/n/r=regenerate): '',
                       CHR 0x0A # ''  Generate image? (y/n/q=quit): ''],
         results := [result_of (product_of ''a'' None) skipped,
                     result_of (product_of ''b'' None) skipped]\<rparr>"
    by (simp add: process_item_def try_block_def choose_image_def skip_def push_def ask_def
        await_def ret_def env_of_def answers_of_def world0_def product_of_def result_of_def
        display_name_def)
  from upload_question_skips [OF h1 h2 h3 h4 h5 h6, of "[product_of ''b'' None]"] next_item
  have "process_items ?E ''T'' False [?p, product_of ''b'' None] world0 =
       world0\<lparr>files := [''a'' \<mapsto> ''aW1hZ2U=''],
         prompts := [''T'' @ [CHR 0x0A, CHR 0x0A] @ ''Product name: Item a'' @ [CHR 0x0A]
                       @ ''Product description: Nice''],
         questions := [CHR 0x0A # ''  Generate image? (y/n/q=quit): '',
                       ''  Upload this image to Shopware? (y/n/r=regenerate): '',
                       CHR 0x0A # ''  Generate image? (y/n/q=quit): ''],
         results := [result_of (product_of ''a'' None) skipped,
                     result_of (product_of ''b'' None) skipped]\<rparr>"
    by (simp only:)
  with h1 h2 h4 h5 h6 show ?thesis by (simp only: simp_thms)
qed

lemma process_item_results:
  assumes "process_item env t batch p w = (c, w')"
  shows "(c = Break \<and> \<not> batch \<and> answers env (length (questions w)) = ''q'' \<and> results w' = results w)
       \<or> (c = Continue \<and> (\<exists>r. results w' = results w @ [r] \<and> productId r = product_id p
               \<and> productName r = display_name p))"
proof -
  obtain r w1 where ch: "choose_image env t batch p w = (r, w1)"
    by (cases "choose_image env t batch p w")
  note cr = choose_image_results [OF ch]
  show ?thesis
  proof (cases r)
    case (Inl err)
    with assms ch cr show ?thesis
      by (auto simp add: process_item_caught try_block_cases caught_def failed_result_def)
  next
    case (Inr x)
    show ?thesis
    proof (cases x)
      case (Inl control)
      with Inr assms ch cr show ?thesis
        by (cases control)
          (auto simp add: process_item_caught try_block_cases caught_def result_of_def)
    next
      case buf: (Inr buf)
      obtain r2 w2 where up: "upload env p buf w1 = (r2, w2)"
        by (cases "upload env p buf w1")
      from upload_results [OF up] buf Inr assms ch cr up show ?thesis
        by (auto simp add: process_item_caught try_block_cases caught_def failed_result_def
            result_of_def)
    qed
  qed
qed

text \<open>
  C4. In interactive mode the answer \<open>q\<close> to the first question about an item, be it the
  question for an item with a preview or the one for an item without, ends the loop at once:
  the question is the only effect, no result is recorded for the item, and the items after
  it are not visited. So when the first item has been dealt with and \<open>q\<close> answers the first
  question about the second, the run ends with one result, that of the first item, whatever
  items follow.
\<close>

theorem quit_ends_loop:
  assumes "answers env (length (questions w)) = ''q''"
  shows "process_item env t False p w =
           (Break,
            w\<lparr>questions := questions w @
                 [if files w (product_id p) = None
                  then CHR 0x0A # ''  Generate image? (y/n/q=quit): ''
                  else CHR 0x0A # ''  Image exists. Upload to Shopware? (y/n/r=regenerate/q=quit): '']\<rparr>)
       \<and> process_items env t False (p # rest) w = snd (process_item env t False p w)
       \<and> results (process_items env t False (p # rest) w) = results w
       \<and> (\<forall>first v. process_item env t False first v = (Continue, w) \<and> results v = [] \<longrightarrow>
             (\<exists>r. results (process_items env t False (first # p # rest) v) = [r]
                  \<and> productId r = product_id first))"
proof -
  have pi: "process_item env t False p w =
           (Break,
            w\<lparr>questions := questions w @
                 [if files w (product_id p) = None
                  then CHR 0x0A # ''  Generate image? (y/n/q=quit): ''
                  else CHR 0x0A # ''  Image exists. Upload to Shopware? (y/n/r=regenerate/q=quit): '']\<rparr>)"
    using assms
    by (cases "files w (product_id p)")
      (simp_all add: process_item_caught try_block_cases caught_def choose_image_def await_apply
        ask_def ret_def)
  then have loop: "process_items env t False (p # rest) w = snd (process_item env t False p w)"
    and res: "results (process_items env t False (p # rest) w) = results w"
    by simp_all
  have "\<exists>r. results (process_items env t False (first # p # rest) v) = [r]
                  \<and> productId r = product_id first"
    if "process_item env t False first v = (Continue, w) \<and> results v = []" for first v
  proof -
    from that process_item_results [of env t False first v Continue w]
    obtain r where "results w = [r]" "productId r = product_id first" by auto
    moreover have "process_items env t False (first # p # rest) v =
        process_items env t False (p # rest) w"
      using that by simp
    ultimately show ?thesis using res by simp
  qed
  with pi loop res show ?thesis by blast
qed

theorem quit_ends_loop_witness:
  "answers (env_of (shop_server five_items) (answers_of [''n'', ''q''])) (length (questions after_first)) = ''q''
   \<and> process_item (env_of (shop_server five_items) (answers_of [''n'', ''q''])) ''T'' False
        (product_of ''a'' None) world0 = (Continue, after_first)
   \<and> results world0 = []
   \<and> results (process_items (env_of (shop_server five_items) (answers_of [''n'', ''q''])) ''T'' False
        five_items world0) = [result_of (product_of ''a'' None) skipped]
   \<and> productId (result_of (product_of ''a'' None) skipped) = ''a''"
proof -
  let ?E = "env_of (shop_server five_items) (answers_of [''n'', ''q''])"
  have h: "answers ?E (length (questions after_first)) = ''q''"
    by (simp add: env_of_def answers_of_def after_first_def world0_def)
  have f: "process_item ?E ''T'' False (product_of ''a'' None) world0 = (Continue, after_first)"
    by (simp add: process_item_def try_block_def choose_image_def skip_def push_def ask_def
        await_def ret_def env_of_def answers_of_def world0_def after_first_def product_of_def
        result_of_def display_name_def)
  have e: "results world0 = []"
    by (simp add: world0_def)
  from quit_ends_loop [OF h, of "''T''" "product_of ''b'' None"
      "[product_of ''c'' None, product_of ''d'' None, product_of ''e'' None]"] f e
  obtain r where "results (process_items ?E ''T'' False five_items world0) = [r]"
    unfolding five_items_def by blast
  moreover have "results (process_items ?E ''T'' False five_items world0) = results after_first"
    using quit_ends_loop [OF h, of "''T''" "product_of ''b'' None"
      "[product_of ''c'' None, product_of ''d'' None, product_of ''e'' None]"] f
    by (simp add: five_items_def)
  ultimately have "results (process_items ?E ''T'' False five_items world0) =
      [result_of (product_of ''a'' None) skipped]"
    by (simp add: after_first_def)
  moreover have "productId (result_of (product_of ''a'' None) skipped) = ''a''"
    by (simp add: result_of_def product_of_def)
  ultimately show ?thesis using h f e by (simp only: simp_thms)
qed

subsection \<open>Batch mode\<close>

lemma uploadMedia_counts:
  "uploadMedia env buf file w = (r, w') \<Longrightarrow>
     uuids w' = Suc (uuids w) \<and> prompts w' = prompts w \<and> files w' = files w"
  by (auto simp add: uploadMedia_def uuid_def await_apply headers_apply fetch_apply
      throw_def ret_def if_apply split: sum.splits if_splits)

lemma assign_counts:
  "assignMediaToProduct env p m w = (r, w') \<Longrightarrow>
     uuids w' = uuids w \<and> prompts w' = prompts w \<and> files w' = files w"
  by (auto simp add: assignMediaToProduct_def await_apply headers_apply fetch_apply
      throw_def ret_def if_apply Let_def split: sum.splits if_splits)

lemma upload_counts:
  assumes "upload env p buf w = (r, w')"
  shows "uuids w' = Suc (uuids w) \<and> prompts w' = prompts w \<and> files w' = files w"
proof -
  obtain r1 w1 where um: "uploadMedia env buf (''ai-product-'' @ product_id p) w = (r1, w1)"
    by (cases "uploadMedia env buf (''ai-product-'' @ product_id p) w")
  note c1 = uploadMedia_counts [OF um]
  show ?thesis
  proof (cases r1)
    case (Inl err)
    with assms um c1 show ?thesis by (auto simp add: upload_cases)
  next
    case (Inr mediaId)
    obtain r2 w2 where am: "assignMediaToProduct env (product_id p) mediaId w1 = (r2, w2)"
      by (cases "assignMediaToProduct env (product_id p) mediaId w1")
    from assign_counts [OF am] c1 assms um am Inr show ?thesis
      by (cases r2) (auto simp add: upload_cases)
  qed
qed

lemma generate_prompts:
  "generate env t n d w = (r, w') \<Longrightarrow> prompts w' = prompts w @ [buildPrompt t n d] \<and> uuids w' = uuids w"
  by (auto simp add: generate_def Let_def split: sum.splits if_splits)

lemma batch_example:
  "map_option (\<lambda>(r, w). (r, tally w))
     (main (env_of (shop_server four_items) (answers_of [])) config0 False True start) =
   Some (Inr (), [uploaded, uploaded, uploaded], [''a'', ''b'', ''c''], 2, 3)"
  by (simp add: main_def authenticate_def fetchAllProducts_def fetchAllProducts_loop.simps
      new_ImageGenerator_def process_item_def try_block_def choose_image_def upload_def
      uploadMedia_def assignMediaToProduct_def generate_def buildPrompt_def uuid_def location_id_def
      push_def writeFileSync_def fetch_def headers_def getHeaders_def
      await_def ret_def throw_def Let_def pop_def display_name_def display_description_def
      env_of_def shop_server_def catalog_page_def response_ok_def config0_def
      four_items_def start_def product_of_def limit_def trim_def is_space_def tally_def)

subsection \<open>Errors of one item\<close>

lemma try_block_throws:
  assumes "try_block env t batch p w = (Inl err, w1)"
  shows "results w1 = results w"
proof -
  obtain r v where ch: "choose_image env t batch p w = (r, v)"
    by (cases "choose_image env t batch p w")
  note cr = choose_image_results [OF ch]
  show ?thesis
  proof (cases r)
    case (Inl e)
    with assms ch cr show ?thesis by (simp add: try_block_cases)
  next
    case (Inr x)
    show ?thesis
    proof (cases x)
      case (Inl control)
      with Inr assms ch show ?thesis by (simp add: try_block_cases)
    next
      case buf: (Inr buf)
      with Inr assms ch have up: "upload env p buf v = (Inl err, w1)"
        by (simp add: try_block_cases)
      from upload_results [OF up] buf Inr cr show ?thesis by simp
    qed
  qed
qed

lemma process_item_classified:
  assumes "process_item env t batch p w = (Continue, w')"
  shows "\<exists>r. results w' = results w @ [r]
      \<and> productId r = product_id p \<and> productName r = display_name p
      \<and> ((status r = failed
            \<and> (\<exists>err w1. try_block env t batch p w = (Inl err, w1) \<and> error r = Some (message err)))
         \<or> (status r = skipped \<and> error r = None \<and> \<not> batch
            \<and> (\<exists>w1. choose_image env t batch p w = (Inr (Inl Continue), w1)))
         \<or> (status r = uploaded \<and> error r = None
            \<and> (\<exists>buf w1 w2. choose_image env t batch p w = (Inr (Inr buf), w1)
                  \<and> upload env p buf w1 = (Inr Continue, w2))))"
proof -
  obtain r1 w1 where tb: "try_block env t batch p w = (r1, w1)"
    by (cases "try_block env t batch p w")
  show ?thesis
  proof (cases r1)
    case (Inl err)
    with tb try_block_throws [of env t batch p w err w1] assms
    have "results w' = results w @ [failed_result p err]"
      by (auto simp add: process_item_caught caught_def)
    with Inl tb show ?thesis
      by (intro exI [of _ "failed_result p err"]) (simp add: failed_result_def)
  next
    case (Inr control)
    with tb assms have c: "control = Continue" and w': "w' = w1"
      by (simp_all add: process_item_caught caught_def)
    obtain r v where ch: "choose_image env t batch p w = (r, v)"
      by (cases "choose_image env t batch p w")
    note cr = choose_image_results [OF ch]
    show ?thesis
    proof (cases r)
      case (Inl e)
      with tb Inr ch show ?thesis by (simp add: try_block_cases)
    next
      case x: (Inr x)
      show ?thesis
      proof (cases x)
        case (Inl control')
        with x tb Inr ch c have "control' = Continue" "v = w1"
          by (simp_all add: try_block_cases)
        with Inl x cr ch w' show ?thesis
          by (intro exI [of _ "result_of p skipped"]) (simp add: result_of_def)
      next
        case buf: (Inr buf)
        with x tb Inr ch c have up: "upload env p buf v = (Inr Continue, w1)"
          by (simp add: try_block_cases)
        from upload_results [OF up] buf x cr ch up w' show ?thesis
          by (intro exI [of _ "result_of p uploaded"]) (auto simp add: result_of_def)
      qed
    qed
  qed
qed

lemma process_items_batch:
  "map productId (results (process_items env t True items v)) =
     map productId (results v) @ map product_id items"
proof (induction items arbitrary: v)
  case Nil
  then show ?case by simp
next
  case (Cons p items)
  obtain c w' where pi: "process_item env t True p v = (c, w')"
    by (cases "process_item env t True p v")
  from process_item_results [OF pi] obtain r where
    "c = Continue" "results w' = results v @ [r]" "productId r = product_id p" by auto
  with pi Cons.IH [of w'] show ?case by simp
qed

subsection \<open>The steps of one item\<close>

lemma generate_cases:
  "generate env t n d w =
     (case images_generate env (length (prompts w)) (buildPrompt t n d) of
        Inl e \<Rightarrow> Inl e
      | Inr b64 \<Rightarrow>
          if truthy b64 then Inr (from_base64 env (the b64))
          else Inl (Error ''No image data returned from OpenAI''),
      w\<lparr>prompts := prompts w @ [buildPrompt t n d]\<rparr>)"
  by (simp add: generate_def Let_def split: sum.splits)

lemma generate_frame:
  assumes "generate env t n d w = (r, w')"
  shows "w' = w\<lparr>prompts := prompts w @ [buildPrompt t n d]\<rparr>"
  using assms by (auto simp add: generate_cases)

lemma choose_image_batch_throws:
  assumes "files w (product_id p) = None"
    and "generate env t (display_name p) (display_description p) w = (Inl err, w1)"
  shows "choose_image env t True p w = (Inl err, w1)"
  using assms by (simp add: choose_image_def await_apply)

lemma choose_image_first_throws:
  assumes "files w (product_id p) = None"
    and "answers env (length (questions w)) = ''y''"
    and "generate env t (display_name p) (display_description p)
           (w\<lparr>questions := questions w @ [CHR 0x0A # ''  Generate image? (y/n/q=quit): '']\<rparr>)
         = (Inl err, w1)"
  shows "choose_image env t False p w = (Inl err, w1)"
  using assms by (simp add: choose_image_def await_apply ask_def)

lemma choose_image_cached_again_throws:
  assumes "files w (product_id p) = Some content"
    and "answers env (length (questions w)) = ''r''"
    and "generate env t (display_name p) (display_description p)
           (w\<lparr>questions := questions w @
               [CHR 0x0A # ''  Image exists. Upload to Shopware? (y/n/r=regenerate/q=quit): '']\<rparr>)
         = (Inl err, w1)"
  shows "choose_image env t False p w = (Inl err, w1)"
  using assms by (simp add: choose_image_def regenerate_def await_apply ask_def)

lemma choose_image_again_throws:
  assumes "files w (product_id p) = None"
    and "answers env (length (questions w)) = ''y''"
    and "generate env t (display_name p) (display_description p)
           (w\<lparr>questions := questions w @ [CHR 0x0A # ''  Generate image? (y/n/q=quit): '']\<rparr>)
         = (Inr imageBuffer, w1)"
    and "answers env (Suc (length (questions w))) = ''r''"
    and "generate env t (display_name p) (display_description p)
           (w1\<lparr>files := (files w1)(product_id p \<mapsto> imageBuffer),
               questions := questions w1 @ [''  Upload this image to Shopware? (y/n/r=regenerate): '']\<rparr>)
         = (Inl err, w2)"
  shows "choose_image env t False p w = (Inl err, w2)"
proof -
  have q1: "questions w1 = questions w @ [CHR 0x0A # ''  Generate image? (y/n/q=quit): '']"
    using generate_questions [OF assms(3)] by simp
  show ?thesis
    using assms q1
    by (simp add: choose_image_def regenerate_def await_apply ask_def writeFileSync_def)
qed

lemma process_item_choice_throws:
  assumes "choose_image env t batch p w = (Inl err, w1)"
  shows "process_item env t batch p w = (Continue, w1\<lparr>results := results w @ [failed_result p err]\<rparr>)"
  using assms choose_image_results [OF assms]
  by (simp add: process_item_caught try_block_cases caught_def)

lemma process_item_uploadMedia_throws:
  assumes "choose_image env t batch p w = (Inr (Inr buf), w1)"
    and "uploadMedia env buf (''ai-product-'' @ product_id p) w1 = (Inl err, w2)"
  shows "process_item env t batch p w = (Continue, w2\<lparr>results := results w @ [failed_result p err]\<rparr>)"
  using assms choose_image_results [OF assms(1)] uploadMedia_results [OF assms(2)]
  by (simp add: process_item_caught try_block_cases upload_cases caught_def)

lemma process_item_assign_throws:
  assumes "choose_image env t batch p w = (Inr (Inr buf), w1)"
    and "uploadMedia env buf (''ai-product-'' @ product_id p) w1 = (Inr mediaId, w2)"
    and "assignMediaToProduct env (product_id p) mediaId w2 = (Inl err, w3)"
  shows "process_item env t batch p w = (Continue, w3\<lparr>results := results w @ [failed_result p err]\<rparr>)"
  using assms choose_image_results [OF assms(1)] uploadMedia_results [OF assms(2)]
    assign_results [OF assms(3)]
  by (simp add: process_item_caught try_block_cases upload_cases caught_def)

lemma process_item_assign_returns:
  assumes "choose_image env t batch p w = (Inr (Inr buf), w1)"
    and "uploadMedia env buf (''ai-product-'' @ product_id p) w1 = (Inr mediaId, w2)"
    and "assignMediaToProduct env (product_id p) mediaId w2 = (Inr u, w3)"
  shows "process_item env t batch p w = (Continue, w3\<lparr>results := results w @ [result_of p uploaded]\<rparr>)"
  using assms choose_image_results [OF assms(1)] uploadMedia_results [OF assms(2)]
    assign_results [OF assms(3)]
  by (simp add: process_item_caught try_block_cases upload_cases caught_def)

lemma choose_image_throw_origin:
  assumes "choose_image env t batch p w = (Inl err, w1)"
  shows "\<exists>v. generate env t (display_name p) (display_description p) v = (Inl err, w1)"
proof -
  let ?g = "generate env t (display_name p) (display_description p)"
  have reg: "\<exists>v. ?g v = (Inl err, w1)" if "regenerate env t p v0 = (Inl err, w1)" for v0
  proof (cases "?g v0")
    case (Pair r v1)
    with that show ?thesis
      by (cases r)
        (auto simp add: regenerate_def await_apply writeFileSync_def ask_def skip_def push_def
          ret_def if_apply split: if_splits)
  qed
  show ?thesis
  proof (cases batch)
    case True
    show ?thesis
    proof (cases "files w (product_id p)")
      case None
      obtain r v1 where g: "?g w = (r, v1)" by (cases "?g w")
      with assms True None show ?thesis
        by (cases r) (auto simp add: choose_image_def await_apply writeFileSync_def ret_def)
    next
      case (Some content)
      with assms True show ?thesis by (simp add: choose_image_def ret_def)
    qed
  next
    case False
    show ?thesis
    proof (cases "files w (product_id p)")
      case (Some content)
      let ?w0 = "w\<lparr>questions := questions w @
               [CHR 0x0A # ''  Image exists. Upload to Shopware? (y/n/r=regenerate/q=quit): '']\<rparr>"
      from assms False Some have "regenerate env t p ?w0 = (Inl err, w1)"
        by (auto simp add: choose_image_def await_apply ask_def ret_def skip_def push_def if_apply
            split: if_splits)
      then show ?thesis by (rule reg)
    next
      case None
      let ?w0 = "w\<lparr>questions := questions w @ [CHR 0x0A # ''  Generate image? (y/n/q=quit): '']\<rparr>"
      obtain r v1 where g: "?g ?w0 = (r, v1)" by (cases "?g ?w0")
      show ?thesis
      proof (cases r)
        case (Inl e)
        with assms False None g show ?thesis
          by (auto simp add: choose_image_def await_apply ask_def ret_def skip_def push_def if_apply
              split: if_splits)
      next
        case (Inr buf)
        let ?w2 = "v1\<lparr>files := (files v1)(product_id p \<mapsto> buf),
               questions := questions v1 @ [''  Upload this image to Shopware? (y/n/r=regenerate): '']\<rparr>"
        from assms False None g Inr have "regenerate env t p ?w2 = (Inl err, w1)"
          by (auto simp add: choose_image_def await_apply ask_def ret_def skip_def push_def if_apply
              writeFileSync_def split: if_splits)
        then show ?thesis by (rule reg)
      qed
    qed
  qed
qed

lemma upload_returns_origin:
  assumes "upload env p buf w1 = (Inr control, w2)"
  shows "\<exists>mediaId v v'. uploadMedia env buf (''ai-product-'' @ product_id p) w1 = (Inr mediaId, v)
           \<and> assignMediaToProduct env (product_id p) mediaId v = (Inr (), v')
           \<and> w2 = v'\<lparr>results := results w1 @ [result_of p uploaded]\<rparr>"
proof -
  obtain r v where um: "uploadMedia env buf (''ai-product-'' @ product_id p) w1 = (r, v)"
    by (cases "uploadMedia env buf (''ai-product-'' @ product_id p) w1")
  show ?thesis
  proof (cases r)
    case (Inl e)
    with um assms show ?thesis by (simp add: upload_cases)
  next
    case (Inr mediaId)
    obtain r' v' where am: "assignMediaToProduct env (product_id p) mediaId v = (r', v')"
      by (cases "assignMediaToProduct env (product_id p) mediaId v")
    from um am Inr assms uploadMedia_results [OF um] assign_results [OF am] show ?thesis
      by (cases r') (auto simp add: upload_cases)
  qed
qed

lemma upload_throws_origin:
  assumes "upload env p buf w1 = (Inl err, w2)"
  shows "uploadMedia env buf (''ai-product-'' @ product_id p) w1 = (Inl err, w2)
       \<or> (\<exists>mediaId v. uploadMedia env buf (''ai-product-'' @ product_id p) w1 = (Inr mediaId, v)
             \<and> assignMediaToProduct env (product_id p) mediaId v = (Inl err, w2))"
proof -
  obtain r v where um: "uploadMedia env buf (''ai-product-'' @ product_id p) w1 = (r, v)"
    by (cases "uploadMedia env buf (''ai-product-'' @ product_id p) w1")
  show ?thesis
  proof (cases r)
    case (Inl e)
    with um assms show ?thesis by (simp add: upload_cases)
  next
    case (Inr mediaId)
    obtain r' v' where am: "assignMediaToProduct env (product_id p) mediaId v = (r', v')"
      by (cases "assignMediaToProduct env (product_id p) mediaId v")
    from um am Inr assms show ?thesis
      by (cases r') (auto simp add: upload_cases)
  qed
qed

lemma regenerate_skip_answer:
  assumes "regenerate env t p v = (Inr (Inl Continue), w1)"
  shows "length (questions v) < length (questions w1)
       \<and> answers env (length (questions w1) - 1) \<noteq> ''y''"
proof -
  let ?g = "generate env t (display_name p) (display_description p)"
  obtain r v1 where g: "?g v = (r, v1)" by (cases "?g v")
  from generate_questions [OF g] have q: "questions v1 = questions v" by simp
  from assms g q show ?thesis
    by (cases r)
      (auto simp add: regenerate_def await_apply writeFileSync_def ask_def skip_def push_def
        ret_def if_apply split: if_splits)
qed

lemma choose_image_skip_answer:
  assumes "choose_image env t batch p w = (Inr (Inl Continue), w1)"
  shows "\<not> batch \<and> length (questions w) < length (questions w1)
       \<and> answers env (length (questions w1) - 1) \<noteq> ''y''"
proof -
  let ?g = "generate env t (display_name p) (display_description p)"
  from choose_image_results [OF assms] have nb: "\<not> batch" by simp
  show ?thesis
  proof (cases "files w (product_id p)")
    case (Some content)
    let ?w0 = "w\<lparr>questions := questions w @
               [CHR 0x0A # ''  Image exists. Upload to Shopware? (y/n/r=regenerate/q=quit): '']\<rparr>"
    show ?thesis
    proof (cases "answers env (length (questions w)) = ''r''")
      case True
      with assms nb Some have "regenerate env t p ?w0 = (Inr (Inl Continue), w1)"
        by (simp add: choose_image_def await_apply ask_def)
      from regenerate_skip_answer [OF this] nb show ?thesis by simp
    next
      case False
      with assms nb Some show ?thesis
        by (auto simp add: choose_image_def await_apply ask_def ret_def skip_def push_def if_apply
            split: if_splits)
    qed
  next
    case None
    let ?w0 = "w\<lparr>questions := questions w @ [CHR 0x0A # ''  Generate image? (y/n/q=quit): '']\<rparr>"
    show ?thesis
    proof (cases "answers env (length (questions w)) = ''y''")
      case False
      with assms nb None show ?thesis
        by (auto simp add: choose_image_def await_apply ask_def ret_def skip_def push_def if_apply
            split: if_splits)
    next
      case True
      obtain r v1 where g: "?g ?w0 = (r, v1)" by (cases "?g ?w0")
      from generate_questions [OF g] have q: "questions v1 = questions ?w0" by simp
      show ?thesis
      proof (cases r)
        case (Inl e)
        with assms nb None True g show ?thesis
          by (simp add: choose_image_def await_apply ask_def)
      next
        case (Inr buf)
        let ?w2 = "v1\<lparr>files := (files v1)(product_id p \<mapsto> buf),
               questions := questions v1 @ [''  Upload this image to Shopware? (y/n/r=regenerate): '']\<rparr>"
        show ?thesis
        proof (cases "answers env (Suc (length (questions w))) = ''r''")
          case r: True
          with assms nb None True g Inr q have "regenerate env t p ?w2 = (Inr (Inl Continue), w1)"
            by (simp add: choose_image_def await_apply ask_def writeFileSync_def)
          from regenerate_skip_answer [OF this] q nb show ?thesis by simp
        next
          case nr: False
          with assms nb None True g Inr q show ?thesis
            by (auto simp add: choose_image_def await_apply ask_def ret_def skip_def push_def
                if_apply writeFileSync_def split: if_splits)
        qed
      qed
    qed
  qed
qed

subsection \<open>The requests of an upload\<close>

lemma uploadMedia_accepted:
  assumes "truthy (accessToken w)"
    and "server env (length (requests w)) (CreateMedia (fst (uuid env w))) = Inr r1" and "ok r1"
    and "server env (Suc (length (requests w))) (UploadMedia (fst (uuid env w)) file buf) = Inr r2"
    and "ok r2"
  shows "uploadMedia env buf file w =
     (Inr (fst (uuid env w)),
      w\<lparr>uuids := Suc (uuids w),
        requests := requests w @ [CreateMedia (fst (uuid env w)), UploadMedia (fst (uuid env w)) file buf]\<rparr>)"
  using assms
  by (simp add: uploadMedia_def uuid_def await_apply headers_apply fetch_apply getHeaders_truthy
      ret_def)

lemma assign_accepted:
  assumes "truthy (accessToken w)"
    and "server env (length (requests w)) (CreateProductMedia pid m) = Inr r3" and "ok r3"
    and "location r3 = Some l" and "last_segment l \<noteq> []"
    and "server env (Suc (length (requests w))) (PatchProduct pid (last_segment l)) = Inr r4"
    and "ok r4"
  shows "assignMediaToProduct env pid m w =
     (Inr (), w\<lparr>requests := requests w @ [CreateProductMedia pid m, PatchProduct pid (last_segment l)]\<rparr>)"
  using assms
  by (simp add: assignMediaToProduct_def await_apply headers_apply fetch_apply getHeaders_truthy
      ret_def location_id_def pop_split Let_def)

lemma upload_accepted:
  assumes "accepts env w (product_id p) buf c"
  shows "upload env p buf w =
     (Inr Continue,
      w\<lparr>uuids := Suc (uuids w),
        requests := requests w @ protocol_requests env w (product_id p) buf c,
        results := results w @ [result_of p uploaded]\<rparr>)"
proof -
  let ?m = "fst (uuid env w)"
  let ?file = "''ai-product-'' @ product_id p"
  from assms obtain r1 r2 r3 r4 l where
    tok: "truthy (accessToken w)" and c: "c \<noteq> []"
    and s1: "server env (length (requests w)) (CreateMedia ?m) = Inr r1" "ok r1"
    and s2: "server env (Suc (length (requests w))) (UploadMedia ?m ?file buf) = Inr r2" "ok r2"
    and s3: "server env (length (requests w) + 2) (CreateProductMedia (product_id p) ?m) = Inr r3"
      "ok r3" "location r3 = Some l" "last_segment l = c"
    and s4: "server env (length (requests w) + 3) (PatchProduct (product_id p) c) = Inr r4" "ok r4"
    by (auto simp add: accepts_def)
  let ?w2 = "w\<lparr>uuids := Suc (uuids w), requests := requests w @ [CreateMedia ?m, UploadMedia ?m ?file buf]\<rparr>"
  have um: "uploadMedia env buf ?file w = (Inr ?m, ?w2)"
    by (rule uploadMedia_accepted [OF tok s1 s2])
  have am: "assignMediaToProduct env (product_id p) ?m ?w2 =
      (Inr (), ?w2\<lparr>requests := requests ?w2 @
          [CreateProductMedia (product_id p) ?m, PatchProduct (product_id p) (last_segment l)]\<rparr>)"
    by (rule assign_accepted [where ?r3.0 = r3 and ?r4.0 = r4])
      (use tok c s3 s4 in \<open>simp_all add: numeral_3_eq_3 numeral_2_eq_2\<close>)
  from um am s3(4) show ?thesis
    by (simp add: upload_cases protocol_requests_def)
qed

lemma upload_first_request:
  assumes "truthy (accessToken w)"
  shows "take (Suc (length (requests w))) (requests (snd (upload env p buf w))) =
     requests w @ [CreateMedia (fst (uuid env w))]"
proof -
  let ?file = "''ai-product-'' @ product_id p"
  have um: "\<exists>rest. requests (snd (uploadMedia env buf ?file w)) =
      requests w @ CreateMedia (fst (uuid env w)) # rest"
    using assms
    by (auto simp add: uploadMedia_def uuid_def await_apply headers_apply fetch_apply
        getHeaders_truthy throw_def ret_def if_apply split: sum.splits)
  have am: "\<exists>rest. requests v' = requests v @ rest"
    if "assignMediaToProduct env pid m v = (r, v')" for pid m v r v'
    using assign_requests [OF that] by auto
  obtain r1 w1 where u: "uploadMedia env buf ?file w = (r1, w1)"
    by (cases "uploadMedia env buf ?file w")
  from um u obtain rest where w1: "requests w1 = requests w @ CreateMedia (fst (uuid env w)) # rest"
    by auto
  have "\<exists>rest'. requests (snd (upload env p buf w)) =
      requests w @ CreateMedia (fst (uuid env w)) # rest'"
  proof (cases r1)
    case (Inl e)
    with u w1 show ?thesis by (simp add: upload_cases)
  next
    case (Inr mediaId)
    obtain r2 w2 where a: "assignMediaToProduct env (product_id p) mediaId w1 = (r2, w2)"
      by (cases "assignMediaToProduct env (product_id p) mediaId w1")
    from am [OF a] obtain rest2 where "requests w2 = requests w1 @ rest2" by blast
    with u a Inr w1 show ?thesis
      by (cases r2) (simp_all add: upload_cases)
  qed
  then show ?thesis by auto
qed

lemma accepts_frame:
  "accepts env (w\<lparr>prompts := ps, files := fs\<rparr>) pid buf c = accepts env w pid buf c"
  by (simp add: accepts_def uuid_def)

lemma protocol_requests_frame:
  "protocol_requests env (w\<lparr>prompts := ps, files := fs\<rparr>) pid buf c = protocol_requests env w pid buf c"
  by (simp add: protocol_requests_def uuid_def)

lemma caught_requests: "requests (snd (caught p outcome)) = requests (snd outcome)"
  by (cases outcome) (auto simp add: caught_def split: sum.splits)

lemma batch_run:
  "main (env_of (shop_server four_items) (answers_of [])) config0 False True start =
     Some (Inr (), finished)"
  by (simp add: main_def authenticate_def fetchAllProducts_def fetchAllProducts_loop.simps
      new_ImageGenerator_def process_item_def try_block_def choose_image_def upload_def
      uploadMedia_def assignMediaToProduct_def generate_def buildPrompt_def uuid_def location_id_def
      push_def writeFileSync_def fetch_def headers_def getHeaders_def
      await_def ret_def throw_def Let_def pop_def display_name_def display_description_def
      env_of_def shop_server_def catalog_page_def response_ok_def config0_def
      four_items_def start_def product_of_def limit_def trim_def is_space_def finished_def)

text \<open>
  C6. In batch mode, an item with a preview costs no call of the image service: its bytes go
  to the upload as they are. An item without one costs exactly one call, and when the call
  gives an image, the image is written to the preview and goes to the upload. The upload is
  invoked in both cases: whatever the server answers, an authenticated client sends the
  request that creates the media entity, and when the server accepts the four requests, the
  item ends as \<open>uploaded\<close> with exactly these four requests sent: the media entity, the
  bytes, the association and the cover. Each upload calls \<open>uploadMedia\<close> once and the image
  service never. And the run of the example, on three items without a cover of which one has
  a preview, ends with three results, all \<open>uploaded\<close>, after two calls of the image service
  and three uploads of four requests each.
\<close>

theorem batch_item:
  "(files w (product_id p) = Some content \<longrightarrow>
        choose_image env t True p w = (Inr (Inr content), w)
      \<and> process_item env t True p w = caught p (upload env p content w)
      \<and> (truthy (accessToken w) \<longrightarrow>
            take (Suc (length (requests w))) (requests (snd (process_item env t True p w))) =
              requests w @ [CreateMedia (fst (uuid env w))])
      \<and> (accepts env w (product_id p) content c \<longrightarrow>
            process_item env t True p w =
              (Continue,
               w\<lparr>uuids := Suc (uuids w),
                 requests := requests w @ protocol_requests env w (product_id p) content c,
                 results := results w @ [result_of p uploaded]\<rparr>)))
   \<and> (files w (product_id p) = None \<longrightarrow>
        prompts (snd (choose_image env t True p w)) =
          prompts w @ [buildPrompt t (display_name p) (display_description p)]
      \<and> (\<forall>buf w1. generate env t (display_name p) (display_description p) w = (Inr buf, w1) \<longrightarrow>
            w1 = w\<lparr>prompts := prompts w @ [buildPrompt t (display_name p) (display_description p)]\<rparr>
          \<and> choose_image env t True p w =
              (Inr (Inr buf), w1\<lparr>files := (files w1)(product_id p \<mapsto> buf)\<rparr>)
          \<and> process_item env t True p w =
              caught p (upload env p buf (w1\<lparr>files := (files w1)(product_id p \<mapsto> buf)\<rparr>))
          \<and> (truthy (accessToken w) \<longrightarrow>
                take (Suc (length (requests w))) (requests (snd (process_item env t True p w))) =
                  requests w @ [CreateMedia (fst (uuid env w))])
          \<and> (accepts env w (product_id p) buf c \<longrightarrow>
                process_item env t True p w =
                  (Continue,
                   w\<lparr>prompts := prompts w @ [buildPrompt t (display_name p) (display_description p)],
                     files := (files w)(product_id p \<mapsto> buf),
                     uuids := Suc (uuids w),
                     requests := requests w @ protocol_requests env w (product_id p) buf c,
                     results := results w @ [result_of p uploaded]\<rparr>))))
   \<and> uuids (snd (upload env p buf v)) = Suc (uuids v)
   \<and> prompts (snd (upload env p buf v)) = prompts v
   \<and> main (env_of (shop_server four_items) (answers_of [])) config0 False True start =
        Some (Inr (), finished)
   \<and> map_option (\<lambda>(r, w). (r, tally w))
        (main (env_of (shop_server four_items) (answers_of [])) config0 False True start) =
      Some (Inr (), [uploaded, uploaded, uploaded], [''a'', ''b'', ''c''], 2, 3)"
proof (intro conjI)
  show "files w (product_id p) = Some content \<longrightarrow>
        choose_image env t True p w = (Inr (Inr content), w)
      \<and> process_item env t True p w = caught p (upload env p content w)
      \<and> (truthy (accessToken w) \<longrightarrow>
            take (Suc (length (requests w))) (requests (snd (process_item env t True p w))) =
              requests w @ [CreateMedia (fst (uuid env w))])
      \<and> (accepts env w (product_id p) content c \<longrightarrow>
            process_item env t True p w =
              (Continue,
               w\<lparr>uuids := Suc (uuids w),
                 requests := requests w @ protocol_requests env w (product_id p) content c,
                 results := results w @ [result_of p uploaded]\<rparr>))"
  proof
    assume f: "files w (product_id p) = Some content"
    then have ch: "choose_image env t True p w = (Inr (Inr content), w)"
      by (simp add: choose_image_def ret_def)
    then have pi: "process_item env t True p w = caught p (upload env p content w)"
      by (simp add: process_item_caught try_block_cases)
    have first: "take (Suc (length (requests w))) (requests (snd (process_item env t True p w))) =
              requests w @ [CreateMedia (fst (uuid env w))]" if "truthy (accessToken w)"
      using upload_first_request [OF that, of env p content] by (simp add: pi caught_requests)
    have fin: "process_item env t True p w =
              (Continue,
               w\<lparr>uuids := Suc (uuids w),
                 requests := requests w @ protocol_requests env w (product_id p) content c,
                 results := results w @ [result_of p uploaded]\<rparr>)"
      if "accepts env w (product_id p) content c"
      using upload_accepted [OF that] by (simp add: pi caught_def)
    from ch pi first fin
    show "choose_image env t True p w = (Inr (Inr content), w)
      \<and> process_item env t True p w = caught p (upload env p content w)
      \<and> (truthy (accessToken w) \<longrightarrow>
            take (Suc (length (requests w))) (requests (snd (process_item env t True p w))) =
              requests w @ [CreateMedia (fst (uuid env w))])
      \<and> (accepts env w (product_id p) content c \<longrightarrow>
            process_item env t True p w =
              (Continue,
               w\<lparr>uuids := Suc (uuids w),
                 requests := requests w @ protocol_requests env w (product_id p) content c,
                 results := results w @ [result_of p uploaded]\<rparr>))"
      by blast
  qed
next
  let ?prompt = "buildPrompt t (display_name p) (display_description p)"
  show "files w (product_id p) = None \<longrightarrow>
        prompts (snd (choose_image env t True p w)) = prompts w @ [?prompt]
      \<and> (\<forall>buf w1. generate env t (display_name p) (display_description p) w = (Inr buf, w1) \<longrightarrow>
            w1 = w\<lparr>prompts := prompts w @ [?prompt]\<rparr>
          \<and> choose_image env t True p w =
              (Inr (Inr buf), w1\<lparr>files := (files w1)(product_id p \<mapsto> buf)\<rparr>)
          \<and> process_item env t True p w =
              caught p (upload env p buf (w1\<lparr>files := (files w1)(product_id p \<mapsto> buf)\<rparr>))
          \<and> (truthy (accessToken w) \<longrightarrow>
                take (Suc (length (requests w))) (requests (snd (process_item env t True p w))) =
                  requests w @ [CreateMedia (fst (uuid env w))])
          \<and> (accepts env w (product_id p) buf c \<longrightarrow>
                process_item env t True p w =
                  (Continue,
                   w\<lparr>prompts := prompts w @ [?prompt],
                     files := (files w)(product_id p \<mapsto> buf),
                     uuids := Suc (uuids w),
                     requests := requests w @ protocol_requests env w (product_id p) buf c,
                     results := results w @ [result_of p uploaded]\<rparr>)))"
  proof (intro impI conjI allI)
    assume n: "files w (product_id p) = None"
    obtain r w1 where g: "generate env t (display_name p) (display_description p) w = (r, w1)"
      by (cases "generate env t (display_name p) (display_description p) w")
    from generate_prompts [OF g] n g
    show "prompts (snd (choose_image env t True p w)) = prompts w @ [?prompt]"
      by (cases r) (simp_all add: choose_image_def await_apply writeFileSync_def ret_def)
  next
    fix buf w1
    assume n: "files w (product_id p) = None"
      and g: "generate env t (display_name p) (display_description p) w = (Inr buf, w1)"
    show w1: "w1 = w\<lparr>prompts := prompts w @ [?prompt]\<rparr>"
      by (rule generate_frame [OF g])
    let ?w2 = "w1\<lparr>files := (files w1)(product_id p \<mapsto> buf)\<rparr>"
    from n g show ch: "choose_image env t True p w = (Inr (Inr buf), ?w2)"
      by (simp add: choose_image_def await_apply writeFileSync_def ret_def)
    then show pi: "process_item env t True p w = caught p (upload env p buf ?w2)"
      by (simp add: process_item_caught try_block_cases)
    have w2: "?w2 = w\<lparr>prompts := prompts w @ [?prompt], files := (files w)(product_id p \<mapsto> buf)\<rparr>"
      by (simp add: w1)
    {
      assume tok: "truthy (accessToken w)"
      then have "truthy (accessToken ?w2)" by (simp add: w1)
      from upload_first_request [OF this, of env p buf]
      show "take (Suc (length (requests w))) (requests (snd (process_item env t True p w))) =
                  requests w @ [CreateMedia (fst (uuid env w))]"
        by (simp add: pi caught_requests) (simp add: w1 uuid_def)
    }
    {
      assume acc: "accepts env w (product_id p) buf c"
      then have "accepts env ?w2 (product_id p) buf c"
        by (simp only: w2 accepts_frame)
      from upload_accepted [OF this]
      show "process_item env t True p w =
                  (Continue,
                   w\<lparr>prompts := prompts w @ [?prompt],
                     files := (files w)(product_id p \<mapsto> buf),
                     uuids := Suc (uuids w),
                     requests := requests w @ protocol_requests env w (product_id p) buf c,
                     results := results w @ [result_of p uploaded]\<rparr>)"
        by (simp add: pi caught_def) (simp add: w1 protocol_requests_def uuid_def)
    }
  qed
next
  show "uuids (snd (upload env p buf v)) = Suc (uuids v)"
    and "prompts (snd (upload env p buf v)) = prompts v"
    using upload_counts [of env p buf v "fst (upload env p buf v)" "snd (upload env p buf v)"]
    by simp_all
next
  show "main (env_of (shop_server four_items) (answers_of [])) config0 False True start =
        Some (Inr (), finished)"
    by (rule batch_run)
next
  show "map_option (\<lambda>(r, w). (r, tally w))
        (main (env_of (shop_server four_items) (answers_of [])) config0 False True start) =
      Some (Inr (), [uploaded, uploaded, uploaded], [''a'', ''b'', ''c''], 2, 3)"
    by (rule batch_example)
qed

theorem batch_item_witness:
  "files cached (product_id (product_of ''a'' None)) = Some ''bytes''
   \<and> truthy (accessToken cached)
   \<and> accepts (env_of (shop_server []) (answers_of [])) cached (product_id (product_of ''a'' None))
        ''bytes'' ''pm-a''
   \<and> process_item (env_of (shop_server []) (answers_of [])) ''T'' True (product_of ''a'' None) cached =
       (Continue,
        cached\<lparr>uuids := 1,
          requests := [CreateMedia ''0a0'', UploadMedia ''0a0'' ''ai-product-a'' ''bytes'',
                       CreateProductMedia ''a'' ''0a0'', PatchProduct ''a'' ''pm-a''],
          results := [\<lparr>productId = ''a'', productName = ''Item a'', status = uploaded,
                       error = None\<rparr>]\<rparr>)
   \<and> files world0 (product_id (product_of ''b'' None)) = None
   \<and> generate (env_of (shop_server []) (answers_of [])) ''T'' (display_name (product_of ''b'' None))
        (display_description (product_of ''b'' None)) world0 =
       (Inr ''aW1hZ2U='',
        world0\<lparr>prompts := [''T'' @ [CHR 0x0A, CHR 0x0A] @ ''Product name: Item b'' @ [CHR 0x0A]
                       @ ''Product description: Nice'']\<rparr>)
   \<and> accepts (env_of (shop_server []) (answers_of [])) world0 (product_id (product_of ''b'' None))
        ''aW1hZ2U='' ''pm-b''
   \<and> process_item (env_of (shop_server []) (answers_of [])) ''T'' True (product_of ''b'' None) world0 =
       (Continue,
        world0\<lparr>prompts := [''T'' @ [CHR 0x0A, CHR 0x0A] @ ''Product name: Item b'' @ [CHR 0x0A]
                       @ ''Product description: Nice''],
          files := [''b'' \<mapsto> ''aW1hZ2U=''],
          uuids := 1,
          requests := [CreateMedia ''0a0'', UploadMedia ''0a0'' ''ai-product-b'' ''aW1hZ2U='',
                       CreateProductMedia ''b'' ''0a0'', PatchProduct ''b'' ''pm-b''],
          results := [\<lparr>productId = ''b'', productName = ''Item b'', status = uploaded,
                       error = None\<rparr>]\<rparr>)"
proof -
  let ?E = "env_of (shop_server []) (answers_of [])"
  let ?a = "product_of ''a'' None"
  let ?b = "product_of ''b'' None"
  let ?w1 = "world0\<lparr>prompts := [''T'' @ [CHR 0x0A, CHR 0x0A] @ ''Product name: Item b'' @ [CHR 0x0A]
                       @ ''Product description: Nice'']\<rparr>"
  have c: "files cached (product_id ?a) = Some ''bytes''"
    by (simp add: cached_def world0_def product_of_def)
  have tok: "truthy (accessToken cached)"
    by (simp add: cached_def world0_def)
  have acc_a: "accepts ?E cached (product_id ?a) ''bytes'' ''pm-a''"
    by (simp add: accepts_def uuid_def env_of_def shop_server_def response_ok_def cached_def
        world0_def product_of_def last_segment_def)
  have n: "files world0 (product_id ?b) = None"
    by (simp add: world0_def)
  have g: "generate ?E ''T'' (display_name ?b) (display_description ?b) world0 = (Inr ''aW1hZ2U='', ?w1)"
    by (simp add: generate_def buildPrompt_def env_of_def world0_def product_of_def
        display_name_def display_description_def trim_def is_space_def)
  have acc_b: "accepts ?E world0 (product_id ?b) ''aW1hZ2U='' ''pm-b''"
    by (simp add: accepts_def uuid_def env_of_def shop_server_def response_ok_def
        world0_def product_of_def last_segment_def)
  note t1 = batch_item [of cached ?a "''bytes''" ?E "''T''" "''pm-a''"]
  note t2 = batch_item [of world0 ?b _ ?E "''T''" "''pm-b''"]
  from t1 c acc_a have "process_item ?E ''T'' True ?a cached =
      (Continue,
       cached\<lparr>uuids := Suc (uuids cached),
         requests := requests cached @ protocol_requests ?E cached (product_id ?a) ''bytes'' ''pm-a'',
         results := results cached @ [result_of ?a uploaded]\<rparr>)"
    by blast
  then have ra: "process_item ?E ''T'' True ?a cached =
       (Continue,
        cached\<lparr>uuids := 1,
          requests := [CreateMedia ''0a0'', UploadMedia ''0a0'' ''ai-product-a'' ''bytes'',
                       CreateProductMedia ''a'' ''0a0'', PatchProduct ''a'' ''pm-a''],
          results := [\<lparr>productId = ''a'', productName = ''Item a'', status = uploaded,
                       error = None\<rparr>]\<rparr>)"
    by (simp add: protocol_requests_def uuid_def env_of_def cached_def world0_def product_of_def
        result_of_def display_name_def)
  from t2 n g acc_b have "process_item ?E ''T'' True ?b world0 =
      (Continue,
       world0\<lparr>prompts := prompts world0 @ [buildPrompt ''T'' (display_name ?b) (display_description ?b)],
         files := (files world0)(product_id ?b \<mapsto> ''aW1hZ2U=''),
         uuids := Suc (uuids world0),
         requests := requests world0 @ protocol_requests ?E world0 (product_id ?b) ''aW1hZ2U='' ''pm-b'',
         results := results world0 @ [result_of ?b uploaded]\<rparr>)"
    by blast
  then have rb: "process_item ?E ''T'' True ?b world0 =
       (Continue,
        world0\<lparr>prompts := [''T'' @ [CHR 0x0A, CHR 0x0A] @ ''Product name: Item b'' @ [CHR 0x0A]
                       @ ''Product description: Nice''],
          files := [''b'' \<mapsto> ''aW1hZ2U=''],
          uuids := 1,
          requests := [CreateMedia ''0a0'', UploadMedia ''0a0'' ''ai-product-b'' ''aW1hZ2U='',
                       CreateProductMedia ''b'' ''0a0'', PatchProduct ''b'' ''pm-b''],
          results := [\<lparr>productId = ''b'', productName = ''Item b'', status = uploaded,
                       error = None\<rparr>]\<rparr>)"
    by (simp add: protocol_requests_def uuid_def env_of_def world0_def product_of_def
        result_of_def display_name_def display_description_def buildPrompt_def trim_def is_space_def)
  from c tok acc_a ra n g acc_b rb show ?thesis by (simp only: simp_thms)
qed

lemma generate_throws_iff:
  "generate env t n d v = (Inl err, v1) \<longleftrightarrow>
     v1 = v\<lparr>prompts := prompts v @ [buildPrompt t n d]\<rparr>
     \<and> (images_generate env (length (prompts v)) (buildPrompt t n d) = Inl err
        \<or> (\<exists>b64. images_generate env (length (prompts v)) (buildPrompt t n d) = Inr b64
              \<and> \<not> truthy b64 \<and> err = Error ''No image data returned from OpenAI''))"
  by (auto simp add: generate_cases split: sum.splits if_splits)

lemma process_item_classified_steps:
  assumes "process_item env t batch p w = (Continue, w')"
  shows "\<exists>r. results w' = results w @ [r]
      \<and> productId r = product_id p \<and> productName r = display_name p
      \<and> ((status r = failed
            \<and> (\<exists>err w1. try_block env t batch p w = (Inl err, w1) \<and> error r = Some (message err)
                  \<and> ((\<exists>v. generate env t (display_name p) (display_description p) v = (Inl err, w1))
                     \<or> (\<exists>buf v. choose_image env t batch p w = (Inr (Inr buf), v)
                           \<and> (uploadMedia env buf (''ai-product-'' @ product_id p) v = (Inl err, w1)
                              \<or> (\<exists>mediaId v2.
                                    uploadMedia env buf (''ai-product-'' @ product_id p) v = (Inr mediaId, v2)
                                  \<and> assignMediaToProduct env (product_id p) mediaId v2 = (Inl err, w1)))))))
         \<or> (status r = skipped \<and> error r = None \<and> \<not> batch
            \<and> (\<exists>w1. choose_image env t batch p w = (Inr (Inl Continue), w1))
            \<and> length (questions w) < length (questions w')
            \<and> answers env (length (questions w') - 1) \<noteq> ''y'')
         \<or> (status r = uploaded \<and> error r = None
            \<and> (\<exists>buf w1 w2. choose_image env t batch p w = (Inr (Inr buf), w1)
                  \<and> upload env p buf w1 = (Inr Continue, w2)
                  \<and> (\<exists>mediaId v v'.
                        uploadMedia env buf (''ai-product-'' @ product_id p) w1 = (Inr mediaId, v)
                      \<and> assignMediaToProduct env (product_id p) mediaId v = (Inr (), v')))))"
proof -
  from process_item_classified [OF assms] obtain r where
    r: "results w' = results w @ [r]" "productId r = product_id p" "productName r = display_name p"
    and cls: "(status r = failed
            \<and> (\<exists>err w1. try_block env t batch p w = (Inl err, w1) \<and> error r = Some (message err)))
         \<or> (status r = skipped \<and> error r = None \<and> \<not> batch
            \<and> (\<exists>w1. choose_image env t batch p w = (Inr (Inl Continue), w1)))
         \<or> (status r = uploaded \<and> error r = None
            \<and> (\<exists>buf w1 w2. choose_image env t batch p w = (Inr (Inr buf), w1)
                  \<and> upload env p buf w1 = (Inr Continue, w2)))"
    by blast
  from cls consider
    (f) err w1 where "status r = failed" "try_block env t batch p w = (Inl err, w1)"
      "error r = Some (message err)"
    | (s) w1 where "status r = skipped" "error r = None" "\<not> batch"
      "choose_image env t batch p w = (Inr (Inl Continue), w1)"
    | (u) buf w1 w2 where "status r = uploaded" "error r = None"
      "choose_image env t batch p w = (Inr (Inr buf), w1)" "upload env p buf w1 = (Inr Continue, w2)"
    by blast
  then show ?thesis
  proof cases
    case f
    obtain x v where ch: "choose_image env t batch p w = (x, v)"
      by (cases "choose_image env t batch p w")
    have "(\<exists>v. generate env t (display_name p) (display_description p) v = (Inl err, w1))
        \<or> (\<exists>buf v. choose_image env t batch p w = (Inr (Inr buf), v)
              \<and> (uploadMedia env buf (''ai-product-'' @ product_id p) v = (Inl err, w1)
                 \<or> (\<exists>mediaId v2.
                       uploadMedia env buf (''ai-product-'' @ product_id p) v = (Inr mediaId, v2)
                     \<and> assignMediaToProduct env (product_id p) mediaId v2 = (Inl err, w1))))"
    proof (cases x)
      case (Inl e)
      with ch f(2) have "choose_image env t batch p w = (Inl err, w1)"
        by (simp add: try_block_cases)
      from choose_image_throw_origin [OF this] show ?thesis by blast
    next
      case (Inr y)
      show ?thesis
      proof (cases y)
        case (Inl control)
        with Inr ch f(2) show ?thesis by (simp add: try_block_cases)
      next
        case buf: (Inr buf)
        with Inr ch f(2) have "upload env p buf v = (Inl err, w1)"
          by (simp add: try_block_cases)
        from upload_throws_origin [OF this] ch Inr buf show ?thesis by blast
      qed
    qed
    with f r show ?thesis by blast
  next
    case s
    have "w' = w1"
      using assms s(4) by (simp add: process_item_caught try_block_cases caught_def)
    with choose_image_skip_answer [OF s(4)] s r show ?thesis by blast
  next
    case u
    from upload_returns_origin [OF u(4)] u r show ?thesis by blast
  qed
qed

text \<open>
  C3. Whatever an item throws is caught, recorded as \<open>failed\<close> with the message of the error
  next to the results recorded before, and the loop goes on with the next item. This is so
  for \<open>generate\<close> at each of its four calls (batch mode, the first generation in interactive
  mode, and the regeneration for an item with and without a preview), where it throws what
  the image service rejects with, or the error of the missing image; for \<open>uploadMedia\<close>; and
  for \<open>assignMediaToProduct\<close>; only when both of these return is the item \<open>uploaded\<close>. The
  loop ends early only on the answer \<open>q\<close> in interactive mode. Every item the loop does not
  end on gets exactly one result: \<open>failed\<close> with the message of an error thrown by one of the
  three, \<open>skipped\<close> after an answer of the operator that is not \<open>y\<close>, or \<open>uploaded\<close> after
  \<open>uploadMedia\<close> and \<open>assignMediaToProduct\<close> returned. In batch mode every item gets a result,
  whatever fails.
\<close>

theorem item_errors_recorded:
  assumes "process_item env t batch p w = (c, w')"
  shows "(\<forall>err w1. try_block env t batch p w = (Inl err, w1) \<longrightarrow>
            c = Continue \<and> w' = w1\<lparr>results := results w @ [failed_result p err]\<rparr>)
       \<and> (\<forall>err w1. choose_image env t batch p w = (Inl err, w1) \<longrightarrow>
            try_block env t batch p w = (Inl err, w1))
       \<and> (\<forall>buf w1 err w2. choose_image env t batch p w = (Inr (Inr buf), w1)
              \<and> upload env p buf w1 = (Inl err, w2) \<longrightarrow>
            try_block env t batch p w = (Inl err, w2))
       \<and> (\<forall>n d v err v1. generate env t n d v = (Inl err, v1) \<longleftrightarrow>
            v1 = v\<lparr>prompts := prompts v @ [buildPrompt t n d]\<rparr>
          \<and> (images_generate env (length (prompts v)) (buildPrompt t n d) = Inl err
             \<or> (\<exists>b64. images_generate env (length (prompts v)) (buildPrompt t n d) = Inr b64
                   \<and> \<not> truthy b64 \<and> err = Error ''No image data returned from OpenAI'')))
       \<and> (\<forall>err w1. batch \<and> files w (product_id p) = None
              \<and> generate env t (display_name p) (display_description p) w = (Inl err, w1) \<longrightarrow>
            c = Continue \<and> w' = w1\<lparr>results := results w @ [failed_result p err]\<rparr>)
       \<and> (\<forall>err w1. \<not> batch \<and> files w (product_id p) = None
              \<and> answers env (length (questions w)) = ''y''
              \<and> generate env t (display_name p) (display_description p) (w\<lparr>questions := questions w @ [CHR 0x0A # ''  Generate image? (y/n/q=quit): '']\<rparr>) = (Inl err, w1) \<longrightarrow>
            c = Continue \<and> w' = w1\<lparr>results := results w @ [failed_result p err]\<rparr>)
       \<and> (\<forall>content err w1. \<not> batch \<and> files w (product_id p) = Some content
              \<and> answers env (length (questions w)) = ''r''
              \<and> generate env t (display_name p) (display_description p) (w\<lparr>questions := questions w @ [CHR 0x0A # ''  Image exists. Upload to Shopware? (y/n/r=regenerate/q=quit): '']\<rparr>) = (Inl err, w1) \<longrightarrow>
            c = Continue \<and> w' = w1\<lparr>results := results w @ [failed_result p err]\<rparr>)
       \<and> (\<forall>imageBuffer w1 err w2. \<not> batch \<and> files w (product_id p) = None
              \<and> answers env (length (questions w)) = ''y''
              \<and> generate env t (display_name p) (display_description p) (w\<lparr>questions := questions w @ [CHR 0x0A # ''  Generate image? (y/n/q=quit): '']\<rparr>) = (Inr imageBuffer, w1)
              \<and> answers env (Suc (length (questions w))) = ''r''
              \<and> generate env t (display_name p) (display_description p)
                   (w1\<lparr>files := (files w1)(product_id p \<mapsto> imageBuffer),
                       questions := questions w1 @ [''  Upload this image to Shopware? (y/n/r=regenerate): '']\<rparr>) = (Inl err, w2) \<longrightarrow>
            c = Continue \<and> w' = w2\<lparr>results := results w @ [failed_result p err]\<rparr>)
       \<and> (\<forall>buf w1 err w2. choose_image env t batch p w = (Inr (Inr buf), w1)
              \<and> uploadMedia env buf (''ai-product-'' @ product_id p) w1 = (Inl err, w2) \<longrightarrow>
            c = Continue \<and> w' = w2\<lparr>results := results w @ [failed_result p err]\<rparr>)
       \<and> (\<forall>buf w1 mediaId w2 err w3. choose_image env t batch p w = (Inr (Inr buf), w1)
              \<and> uploadMedia env buf (''ai-product-'' @ product_id p) w1 = (Inr mediaId, w2)
              \<and> assignMediaToProduct env (product_id p) mediaId w2 = (Inl err, w3) \<longrightarrow>
            c = Continue \<and> w' = w3\<lparr>results := results w @ [failed_result p err]\<rparr>)
       \<and> (\<forall>buf w1 mediaId w2 w3. choose_image env t batch p w = (Inr (Inr buf), w1)
              \<and> uploadMedia env buf (''ai-product-'' @ product_id p) w1 = (Inr mediaId, w2)
              \<and> assignMediaToProduct env (product_id p) mediaId w2 = (Inr (), w3) \<longrightarrow>
            c = Continue \<and> w' = w3\<lparr>results := results w @ [result_of p uploaded]\<rparr>)
       \<and> (\<forall>content err w2. batch \<and> files w (product_id p) = Some content
              \<and> uploadMedia env content (''ai-product-'' @ product_id p) w = (Inl err, w2) \<longrightarrow>
            c = Continue \<and> w' = w2\<lparr>results := results w @ [failed_result p err]\<rparr>)
       \<and> (\<forall>content mediaId w2 err w3. batch \<and> files w (product_id p) = Some content
              \<and> uploadMedia env content (''ai-product-'' @ product_id p) w = (Inr mediaId, w2)
              \<and> assignMediaToProduct env (product_id p) mediaId w2 = (Inl err, w3) \<longrightarrow>
            c = Continue \<and> w' = w3\<lparr>results := results w @ [failed_result p err]\<rparr>)
       \<and> (process_items env t batch (p # rest) w =
            (if c = Break then w' else process_items env t batch rest w'))
       \<and> (c = Break \<longrightarrow> \<not> batch \<and> answers env (length (questions w)) = ''q'' \<and> results w' = results w)
       \<and> (c = Continue \<longrightarrow>
            (\<exists>r. results w' = results w @ [r]
      \<and> productId r = product_id p \<and> productName r = display_name p
      \<and> ((status r = failed
            \<and> (\<exists>err w1. try_block env t batch p w = (Inl err, w1) \<and> error r = Some (message err)
                  \<and> ((\<exists>v. generate env t (display_name p) (display_description p) v = (Inl err, w1))
                     \<or> (\<exists>buf v. choose_image env t batch p w = (Inr (Inr buf), v)
                           \<and> (uploadMedia env buf (''ai-product-'' @ product_id p) v = (Inl err, w1)
                              \<or> (\<exists>mediaId v2.
                                    uploadMedia env buf (''ai-product-'' @ product_id p) v = (Inr mediaId, v2)
                                  \<and> assignMediaToProduct env (product_id p) mediaId v2 = (Inl err, w1)))))))
         \<or> (status r = skipped \<and> error r = None \<and> \<not> batch
            \<and> (\<exists>w1. choose_image env t batch p w = (Inr (Inl Continue), w1))
            \<and> length (questions w) < length (questions w')
            \<and> answers env (length (questions w') - 1) \<noteq> ''y'')
         \<or> (status r = uploaded \<and> error r = None
            \<and> (\<exists>buf w1 w2. choose_image env t batch p w = (Inr (Inr buf), w1)
                  \<and> upload env p buf w1 = (Inr Continue, w2)
                  \<and> (\<exists>mediaId v v'.
                        uploadMedia env buf (''ai-product-'' @ product_id p) w1 = (Inr mediaId, v)
                      \<and> assignMediaToProduct env (product_id p) mediaId v = (Inr (), v')))))))
       \<and> (map productId (results (process_items env t True items v)) =
            map productId (results v) @ map product_id items)"
proof (intro conjI)
  show "\<forall>err w1. try_block env t batch p w = (Inl err, w1) \<longrightarrow>
            c = Continue \<and> w' = w1\<lparr>results := results w @ [failed_result p err]\<rparr>"
  proof (intro allI impI)
    fix err w1
    assume tb: "try_block env t batch p w = (Inl err, w1)"
    with assms try_block_throws [OF tb]
    show "c = Continue \<and> w' = w1\<lparr>results := results w @ [failed_result p err]\<rparr>"
      by (auto simp add: process_item_caught caught_def)
  qed
next
  show "\<forall>err w1. choose_image env t batch p w = (Inl err, w1) \<longrightarrow>
            try_block env t batch p w = (Inl err, w1)"
    by (simp add: try_block_cases)
next
  show "\<forall>buf w1 err w2. choose_image env t batch p w = (Inr (Inr buf), w1)
              \<and> upload env p buf w1 = (Inl err, w2) \<longrightarrow>
            try_block env t batch p w = (Inl err, w2)"
    by (simp add: try_block_cases)
next
  show "\<forall>n d v err v1. generate env t n d v = (Inl err, v1) \<longleftrightarrow>
            v1 = v\<lparr>prompts := prompts v @ [buildPrompt t n d]\<rparr>
          \<and> (images_generate env (length (prompts v)) (buildPrompt t n d) = Inl err
             \<or> (\<exists>b64. images_generate env (length (prompts v)) (buildPrompt t n d) = Inr b64
                   \<and> \<not> truthy b64 \<and> err = Error ''No image data returned from OpenAI''))"
    by (simp only: generate_throws_iff simp_thms)
next
  show "\<forall>err w1. batch \<and> files w (product_id p) = None
              \<and> generate env t (display_name p) (display_description p) w = (Inl err, w1) \<longrightarrow>
            c = Continue \<and> w' = w1\<lparr>results := results w @ [failed_result p err]\<rparr>"
    using assms process_item_choice_throws [OF choose_image_batch_throws, of w p env t]
    by auto
next
  show "\<forall>err w1. \<not> batch \<and> files w (product_id p) = None
              \<and> answers env (length (questions w)) = ''y''
              \<and> generate env t (display_name p) (display_description p) (w\<lparr>questions := questions w @ [CHR 0x0A # ''  Generate image? (y/n/q=quit): '']\<rparr>) = (Inl err, w1) \<longrightarrow>
            c = Continue \<and> w' = w1\<lparr>results := results w @ [failed_result p err]\<rparr>"
    using assms process_item_choice_throws [OF choose_image_first_throws, of w p env t]
    by auto
next
  show "\<forall>content err w1. \<not> batch \<and> files w (product_id p) = Some content
              \<and> answers env (length (questions w)) = ''r''
              \<and> generate env t (display_name p) (display_description p) (w\<lparr>questions := questions w @ [CHR 0x0A # ''  Image exists. Upload to Shopware? (y/n/r=regenerate/q=quit): '']\<rparr>) = (Inl err, w1) \<longrightarrow>
            c = Continue \<and> w' = w1\<lparr>results := results w @ [failed_result p err]\<rparr>"
    using assms process_item_choice_throws [OF choose_image_cached_again_throws, of w p _ env t]
    by auto
next
  show "\<forall>imageBuffer w1 err w2. \<not> batch \<and> files w (product_id p) = None
              \<and> answers env (length (questions w)) = ''y''
              \<and> generate env t (display_name p) (display_description p) (w\<lparr>questions := questions w @ [CHR 0x0A # ''  Generate image? (y/n/q=quit): '']\<rparr>) = (Inr imageBuffer, w1)
              \<and> answers env (Suc (length (questions w))) = ''r''
              \<and> generate env t (display_name p) (display_description p)
                   (w1\<lparr>files := (files w1)(product_id p \<mapsto> imageBuffer),
                       questions := questions w1 @ [''  Upload this image to Shopware? (y/n/r=regenerate): '']\<rparr>) = (Inl err, w2) \<longrightarrow>
            c = Continue \<and> w' = w2\<lparr>results := results w @ [failed_result p err]\<rparr>"
    using assms process_item_choice_throws [OF choose_image_again_throws, of w p env t]
    by auto
next
  show "\<forall>buf w1 err w2. choose_image env t batch p w = (Inr (Inr buf), w1)
              \<and> uploadMedia env buf (''ai-product-'' @ product_id p) w1 = (Inl err, w2) \<longrightarrow>
            c = Continue \<and> w' = w2\<lparr>results := results w @ [failed_result p err]\<rparr>"
    using assms process_item_uploadMedia_throws [of env t batch p w] by auto
next
  show "\<forall>buf w1 mediaId w2 err w3. choose_image env t batch p w = (Inr (Inr buf), w1)
              \<and> uploadMedia env buf (''ai-product-'' @ product_id p) w1 = (Inr mediaId, w2)
              \<and> assignMediaToProduct env (product_id p) mediaId w2 = (Inl err, w3) \<longrightarrow>
            c = Continue \<and> w' = w3\<lparr>results := results w @ [failed_result p err]\<rparr>"
    using assms process_item_assign_throws [of env t batch p w] by auto
next
  show "\<forall>buf w1 mediaId w2 w3. choose_image env t batch p w = (Inr (Inr buf), w1)
              \<and> uploadMedia env buf (''ai-product-'' @ product_id p) w1 = (Inr mediaId, w2)
              \<and> assignMediaToProduct env (product_id p) mediaId w2 = (Inr (), w3) \<longrightarrow>
            c = Continue \<and> w' = w3\<lparr>results := results w @ [result_of p uploaded]\<rparr>"
    using assms process_item_assign_returns [of env t batch p w] by auto
next
  show "\<forall>content err w2. batch \<and> files w (product_id p) = Some content
              \<and> uploadMedia env content (''ai-product-'' @ product_id p) w = (Inl err, w2) \<longrightarrow>
            c = Continue \<and> w' = w2\<lparr>results := results w @ [failed_result p err]\<rparr>"
    using assms process_item_uploadMedia_throws [of env t True p w _ w]
    by (auto simp add: choose_image_def ret_def)
next
  show "\<forall>content mediaId w2 err w3. batch \<and> files w (product_id p) = Some content
              \<and> uploadMedia env content (''ai-product-'' @ product_id p) w = (Inr mediaId, w2)
              \<and> assignMediaToProduct env (product_id p) mediaId w2 = (Inl err, w3) \<longrightarrow>
            c = Continue \<and> w' = w3\<lparr>results := results w @ [failed_result p err]\<rparr>"
    using assms process_item_assign_throws [of env t True p w _ w]
    by (auto simp add: choose_image_def ret_def)
next
  show "process_items env t batch (p # rest) w =
            (if c = Break then w' else process_items env t batch rest w')"
    using assms by (cases c) simp_all
next
  show "c = Break \<longrightarrow> \<not> batch \<and> answers env (length (questions w)) = ''q'' \<and> results w' = results w"
    using process_item_results [OF assms] by auto
next
  show "c = Continue \<longrightarrow>
            (\<exists>r. results w' = results w @ [r]
      \<and> productId r = product_id p \<and> productName r = display_name p
      \<and> ((status r = failed
            \<and> (\<exists>err w1. try_block env t batch p w = (Inl err, w1) \<and> error r = Some (message err)
                  \<and> ((\<exists>v. generate env t (display_name p) (display_description p) v = (Inl err, w1))
                     \<or> (\<exists>buf v. choose_image env t batch p w = (Inr (Inr buf), v)
                           \<and> (uploadMedia env buf (''ai-product-'' @ product_id p) v = (Inl err, w1)
                              \<or> (\<exists>mediaId v2.
                                    uploadMedia env buf (''ai-product-'' @ product_id p) v = (Inr mediaId, v2)
                                  \<and> assignMediaToProduct env (product_id p) mediaId v2 = (Inl err, w1)))))))
         \<or> (status r = skipped \<and> error r = None \<and> \<not> batch
            \<and> (\<exists>w1. choose_image env t batch p w = (Inr (Inl Continue), w1))
            \<and> length (questions w) < length (questions w')
            \<and> answers env (length (questions w') - 1) \<noteq> ''y'')
         \<or> (status r = uploaded \<and> error r = None
            \<and> (\<exists>buf w1 w2. choose_image env t batch p w = (Inr (Inr buf), w1)
                  \<and> upload env p buf w1 = (Inr Continue, w2)
                  \<and> (\<exists>mediaId v v'.
                        uploadMedia env buf (''ai-product-'' @ product_id p) w1 = (Inr mediaId, v)
                      \<and> assignMediaToProduct env (product_id p) mediaId v = (Inr (), v'))))))"
  proof
    assume "c = Continue"
    with assms have "process_item env t batch p w = (Continue, w')" by simp
    then show "\<exists>r. results w' = results w @ [r]
      \<and> productId r = product_id p \<and> productName r = display_name p
      \<and> ((status r = failed
            \<and> (\<exists>err w1. try_block env t batch p w = (Inl err, w1) \<and> error r = Some (message err)
                  \<and> ((\<exists>v. generate env t (display_name p) (display_description p) v = (Inl err, w1))
                     \<or> (\<exists>buf v. choose_image env t batch p w = (Inr (Inr buf), v)
                           \<and> (uploadMedia env buf (''ai-product-'' @ product_id p) v = (Inl err, w1)
                              \<or> (\<exists>mediaId v2.
                                    uploadMedia env buf (''ai-product-'' @ product_id p) v = (Inr mediaId, v2)
                                  \<and> assignMediaToProduct env (product_id p) mediaId v2 = (Inl err, w1)))))))
         \<or> (status r = skipped \<and> error r = None \<and> \<not> batch
            \<and> (\<exists>w1. choose_image env t batch p w = (Inr (Inl Continue), w1))
            \<and> length (questions w) < length (questions w')
            \<and> answers env (length (questions w') - 1) \<noteq> ''y'')
         \<or> (status r = uploaded \<and> error r = None
            \<and> (\<exists>buf w1 w2. choose_image env t batch p w = (Inr (Inr buf), w1)
                  \<and> upload env p buf w1 = (Inr Continue, w2)
                  \<and> (\<exists>mediaId v v'.
                        uploadMedia env buf (''ai-product-'' @ product_id p) w1 = (Inr mediaId, v)
                      \<and> assignMediaToProduct env (product_id p) mediaId v = (Inr (), v')))))"
      by (rule process_item_classified_steps)
  qed
next
  show "map productId (results (process_items env t True items v)) =
            map productId (results v) @ map product_id items"
    by (rule process_items_batch)
qed

theorem item_errors_recorded_witness:
  "process_item failing ''T'' True (product_of ''a'' None) cached =
     (Continue,
      upload_failed\<lparr>results := results cached @
        [failed_result (product_of ''a'' None) (Error ''Failed to upload media file (500): down'')]\<rparr>)
   \<and> choose_image failing ''T'' True (product_of ''a'' None) cached = (Inr (Inr ''bytes''), cached)
   \<and> upload failing (product_of ''a'' None) ''bytes'' cached =
       (Inl (Error ''Failed to upload media file (500): down''), upload_failed)
   \<and> try_block failing ''T'' True (product_of ''a'' None) cached =
       (Inl (Error ''Failed to upload media file (500): down''), upload_failed)
   \<and> results (process_items failing ''T'' True [product_of ''a'' None, product_of ''b'' None] cached) =
       [\<lparr>productId = ''a'', productName = ''Item a'', status = failed,
         error = Some ''Failed to upload media file (500): down''\<rparr>,
        \<lparr>productId = ''b'', productName = ''Item b'', status = failed,
         error = Some ''quota exceeded''\<rparr>]
   \<and> files world0 (product_id (product_of ''b'' None)) = None
   \<and> answers no_images_yes (length (questions world0)) = ''y''
   \<and> generate no_images_yes ''T'' (display_name (product_of ''b'' None))
        (display_description (product_of ''b'' None))
        (world0\<lparr>questions := questions world0 @ [CHR 0x0A # ''  Generate image? (y/n/q=quit): '']\<rparr>) =
       (Inl (Error ''quota exceeded''),
        world0\<lparr>questions := [CHR 0x0A # ''  Generate image? (y/n/q=quit): ''],
          prompts := [''T'' @ [CHR 0x0A, CHR 0x0A] @ ''Product name: Item b'' @ [CHR 0x0A]
                        @ ''Product description: Nice'']\<rparr>)
   \<and> process_item no_images_yes ''T'' False (product_of ''b'' None) world0 =
       (Continue,
        world0\<lparr>questions := [CHR 0x0A # ''  Generate image? (y/n/q=quit): ''],
          prompts := [''T'' @ [CHR 0x0A, CHR 0x0A] @ ''Product name: Item b'' @ [CHR 0x0A]
                        @ ''Product description: Nice''],
          results := [\<lparr>productId = ''b'', productName = ''Item b'', status = failed,
                       error = Some ''quota exceeded''\<rparr>]\<rparr>)
   \<and> files cached (product_id (product_of ''a'' None)) = Some ''bytes''
   \<and> uploadMedia (env_of assoc_down (answers_of [])) ''bytes''
        (''ai-product-'' @ product_id (product_of ''a'' None)) cached =
       (Inr ''0a0'',
        cached\<lparr>uuids := 1,
          requests := [CreateMedia ''0a0'', UploadMedia ''0a0'' ''ai-product-a'' ''bytes'']\<rparr>)
   \<and> assignMediaToProduct (env_of assoc_down (answers_of [])) (product_id (product_of ''a'' None)) ''0a0''
        (cached\<lparr>uuids := 1,
           requests := [CreateMedia ''0a0'', UploadMedia ''0a0'' ''ai-product-a'' ''bytes'']\<rparr>) =
       (Inl (Error ''Failed to create product-media association (500): down''),
        cached\<lparr>uuids := 1,
          requests := [CreateMedia ''0a0'', UploadMedia ''0a0'' ''ai-product-a'' ''bytes'',
                       CreateProductMedia ''a'' ''0a0'']\<rparr>)
   \<and> process_item (env_of assoc_down (answers_of [])) ''T'' True (product_of ''a'' None) cached =
       (Continue,
        cached\<lparr>uuids := 1,
          requests := [CreateMedia ''0a0'', UploadMedia ''0a0'' ''ai-product-a'' ''bytes'',
                       CreateProductMedia ''a'' ''0a0''],
          results := [\<lparr>productId = ''a'', productName = ''Item a'', status = failed,
                       error = Some ''Failed to create product-media association (500): down''\<rparr>]\<rparr>)"
proof -
  let ?a = "product_of ''a'' None"
  let ?b = "product_of ''b'' None"
  let ?e = "Error ''Failed to upload media file (500): down''"
  let ?A = "env_of assoc_down (answers_of [])"
  have n: "show_nat 500 = ''500''"
    by (simp add: show_nat.simps digit_def)
  have ch: "choose_image failing ''T'' True ?a cached = (Inr (Inr ''bytes''), cached)"
    by (simp add: choose_image_def ret_def cached_def world0_def product_of_def)
  have up: "upload failing ?a ''bytes'' cached = (Inl ?e, upload_failed)"
    by (simp add: upload_def uploadMedia_def uuid_def await_def headers_def getHeaders_def
        fetch_def throw_def failure_def n failing_def env_of_def upload_down_def shop_server_def
        response_error_def response_ok_def cached_def world0_def upload_failed_def product_of_def)
  obtain c w' where pi: "process_item failing ''T'' True ?a cached = (c, w')"
    by (cases "process_item failing ''T'' True ?a cached")
  note t = item_errors_recorded [OF pi, of "[product_of ''b'' None]"]
  note caught_rule = t [THEN conjunct1]
    and upload_rule = t [THEN conjunct2, THEN conjunct2, THEN conjunct1]
    and loop_rule = t [THEN conjunct2, THEN conjunct2, THEN conjunct2, THEN conjunct2, THEN conjunct2, THEN conjunct2, THEN conjunct2, THEN conjunct2, THEN conjunct2, THEN conjunct2, THEN conjunct2, THEN conjunct2, THEN conjunct2, THEN conjunct1]
  from upload_rule ch up have tb: "try_block failing ''T'' True ?a cached = (Inl ?e, upload_failed)"
    by blast
  with caught_rule have c: "c = Continue"
    and w': "w' = upload_failed\<lparr>results := results cached @ [failed_result ?a ?e]\<rparr>"
    by blast+
  from loop_rule c have "process_items failing ''T'' True [?a, ?b] cached =
      process_items failing ''T'' True [?b] w'"
    by simp
  moreover have "results (process_items failing ''T'' True [?b]
        (upload_failed\<lparr>results := results cached @ [failed_result ?a ?e]\<rparr>)) =
       [\<lparr>productId = ''a'', productName = ''Item a'', status = failed,
         error = Some ''Failed to upload media file (500): down''\<rparr>,
        \<lparr>productId = ''b'', productName = ''Item b'', status = failed,
         error = Some ''quota exceeded''\<rparr>]"
    by (simp add: process_item_def try_block_def choose_image_def generate_def await_def
        failing_def env_of_def no_images_def upload_failed_def cached_def world0_def
        product_of_def failed_result_def display_name_def display_description_def Let_def)
  ultimately have two: "results (process_items failing ''T'' True [?a, ?b] cached) =
       [\<lparr>productId = ''a'', productName = ''Item a'', status = failed,
         error = Some ''Failed to upload media file (500): down''\<rparr>,
        \<lparr>productId = ''b'', productName = ''Item b'', status = failed,
         error = Some ''quota exceeded''\<rparr>]"
    using w' by simp
  let ?wq = "world0\<lparr>questions := [CHR 0x0A # ''  Generate image? (y/n/q=quit): ''],
          prompts := [''T'' @ [CHR 0x0A, CHR 0x0A] @ ''Product name: Item b'' @ [CHR 0x0A]
                        @ ''Product description: Nice'']\<rparr>"
  have f: "files world0 (product_id ?b) = None"
    by (simp add: world0_def)
  have y: "answers no_images_yes (length (questions world0)) = ''y''"
    by (simp add: no_images_yes_def env_of_def answers_of_def world0_def)
  have g: "generate no_images_yes ''T'' (display_name ?b) (display_description ?b)
        (world0\<lparr>questions := questions world0 @ [CHR 0x0A # ''  Generate image? (y/n/q=quit): '']\<rparr>) =
       (Inl (Error ''quota exceeded''), ?wq)"
    by (simp add: generate_def buildPrompt_def no_images_yes_def no_images_def env_of_def world0_def
        product_of_def display_name_def display_description_def trim_def is_space_def)
  obtain c2 w2 where pi2: "process_item no_images_yes ''T'' False ?b world0 = (c2, w2)"
    by (cases "process_item no_images_yes ''T'' False ?b world0")
  from item_errors_recorded [OF pi2, of "[]", THEN conjunct2, THEN conjunct2, THEN conjunct2, THEN conjunct2, THEN conjunct2, THEN conjunct1] f y g
  have "c2 = Continue \<and> w2 = ?wq\<lparr>results := results world0 @ [failed_result ?b (Error ''quota exceeded'')]\<rparr>"
    by blast
  with pi2 have gen: "process_item no_images_yes ''T'' False ?b world0 =
       (Continue,
        world0\<lparr>questions := [CHR 0x0A # ''  Generate image? (y/n/q=quit): ''],
          prompts := [''T'' @ [CHR 0x0A, CHR 0x0A] @ ''Product name: Item b'' @ [CHR 0x0A]
                        @ ''Product description: Nice''],
          results := [\<lparr>productId = ''b'', productName = ''Item b'', status = failed,
                       error = Some ''quota exceeded''\<rparr>]\<rparr>)"
    by (simp add: failed_result_def product_of_def display_name_def world0_def)
  let ?w2 = "cached\<lparr>uuids := 1,
          requests := [CreateMedia ''0a0'', UploadMedia ''0a0'' ''ai-product-a'' ''bytes'']\<rparr>"
  let ?w3 = "cached\<lparr>uuids := 1,
          requests := [CreateMedia ''0a0'', UploadMedia ''0a0'' ''ai-product-a'' ''bytes'',
                       CreateProductMedia ''a'' ''0a0'']\<rparr>"
  have fc: "files cached (product_id ?a) = Some ''bytes''"
    by (simp add: cached_def world0_def product_of_def)
  have um: "uploadMedia ?A ''bytes'' (''ai-product-'' @ product_id ?a) cached = (Inr ''0a0'', ?w2)"
    by (simp add: uploadMedia_def uuid_def await_def headers_def getHeaders_def fetch_def ret_def
        env_of_def assoc_down_def shop_server_def response_ok_def cached_def world0_def product_of_def)
  have am: "assignMediaToProduct ?A (product_id ?a) ''0a0'' ?w2 =
       (Inl (Error ''Failed to create product-media association (500): down''), ?w3)"
    by (simp add: assignMediaToProduct_def await_def headers_def getHeaders_def fetch_def throw_def
        failure_def n env_of_def assoc_down_def response_error_def response_ok_def cached_def
        world0_def product_of_def)
  obtain c3 w3 where pi3: "process_item ?A ''T'' True ?a cached = (c3, w3)"
    by (cases "process_item ?A ''T'' True ?a cached")
  from item_errors_recorded [OF pi3, of "[]", THEN conjunct2, THEN conjunct2, THEN conjunct2, THEN conjunct2, THEN conjunct2, THEN conjunct2, THEN conjunct2, THEN conjunct2, THEN conjunct2, THEN conjunct2, THEN conjunct2, THEN conjunct2, THEN conjunct1] fc um am
  have "c3 = Continue \<and> w3 = ?w3\<lparr>results := results cached @
      [failed_result ?a (Error ''Failed to create product-media association (500): down'')]\<rparr>"
    by blast
  with pi3 have asg: "process_item ?A ''T'' True ?a cached =
       (Continue,
        cached\<lparr>uuids := 1,
          requests := [CreateMedia ''0a0'', UploadMedia ''0a0'' ''ai-product-a'' ''bytes'',
                       CreateProductMedia ''a'' ''0a0''],
          results := [\<lparr>productId = ''a'', productName = ''Item a'', status = failed,
                       error = Some ''Failed to create product-media association (500): down''\<rparr>]\<rparr>)"
    by (simp add: failed_result_def product_of_def display_name_def cached_def world0_def)
  from pi c w' ch up tb two f y g gen fc um am asg show ?thesis by (simp only: simp_thms)
qed

end
